theory Spec2Isabelle
  imports Main "HOL-Library.Multiset" "HOL-Library.Char_ord" "HOL-Library.List_Lexorder" "HOL-Library.Product_Lexorder"
begin

section \<open>Strings, as the Python source uses them\<close>

text \<open>
  A Python \<open>str\<close> is modelled as a HOL \<open>string\<close>; a \<open>char\<close> stands for the code
  point of the same number (0 to 255).  In that range the regular-expression class
  \<^verbatim>\<open>\d\<close> is exactly the ASCII digits and \<^verbatim>\<open>[A-Za-z]\<close> the ASCII letters.
\<close>

definition is_digit :: "char \<Rightarrow> bool" where
  "is_digit c \<longleftrightarrow> c \<in> set ''0123456789''"

definition is_upper :: "char \<Rightarrow> bool" where
  "is_upper c \<longleftrightarrow> c \<in> set ''ABCDEFGHIJKLMNOPQRSTUVWXYZ''"

definition is_lower :: "char \<Rightarrow> bool" where
  "is_lower c \<longleftrightarrow> c \<in> set ''abcdefghijklmnopqrstuvwxyz''"

definition is_alpha :: "char \<Rightarrow> bool" where
  "is_alpha c \<longleftrightarrow> is_upper c \<or> is_lower c"

text \<open>\<^verbatim>\<open>list.index\<close>: the position of the first occurrence, if any.\<close>

fun index_of :: "'a list \<Rightarrow> 'a \<Rightarrow> nat option" where
  "index_of [] y = None"
| "index_of (x # xs) y = (if x = y then Some 0 else map_option Suc (index_of xs y))"

text \<open>\<^verbatim>\<open>str.upper\<close> on a character; the source applies it to a run of ASCII letters only.\<close>

definition upper_char :: "char \<Rightarrow> char" where
  "upper_char c =
     (case index_of ''abcdefghijklmnopqrstuvwxyz'' c of
        Some i \<Rightarrow> ''ABCDEFGHIJKLMNOPQRSTUVWXYZ'' ! i
      | None \<Rightarrow> c)"

definition upper :: "string \<Rightarrow> string" where
  "upper s = map upper_char s"

subsection \<open>Decimal numerals: \<^verbatim>\<open>int(...)\<close> and \<^verbatim>\<open>str(...)\<close>\<close>

definition digit_val :: "char \<Rightarrow> nat" where
  "digit_val c = (case index_of ''0123456789'' c of Some i \<Rightarrow> i | None \<Rightarrow> 0)"

definition digit_char :: "nat \<Rightarrow> char" where
  "digit_char d = ''0123456789'' ! d"

text \<open>\<^verbatim>\<open>int(ds)\<close> for a non-empty run of digits \<open>ds\<close>; Python integers are unbounded.\<close>

definition int_of_digits :: "string \<Rightarrow> nat" where
  "int_of_digits ds = foldl (\<lambda>acc c. 10 * acc + digit_val c) 0 ds"

text \<open>\<^verbatim>\<open>str(n)\<close> for \<open>n \<ge> 0\<close>.\<close>

fun str_nat :: "nat \<Rightarrow> string" where
  "str_nat n = (if n < 10 then [digit_char n] else str_nat (n div 10) @ [digit_char (n mod 10)])"

declare str_nat.simps [simp del]

text \<open>\<^verbatim>\<open>str(i)\<close> / \<^verbatim>\<open>f"{i}"\<close> for any integer.\<close>

definition str_int :: "int \<Rightarrow> string" where
  "str_int i = (if i < 0 then CHR ''-'' # str_nat (nat (- i)) else str_nat (nat i))"

subsection \<open>\<^verbatim>\<open>str.replace\<close>\<close>

text \<open>
  \<^verbatim>\<open>s.replace(old, new)\<close> scans left to right and replaces every non-overlapping
  occurrence; \<^verbatim>\<open>s.replace(old, new, 1)\<close> replaces the first occurrence only.  The
  pattern of the source is never empty.
\<close>

fun starts_with :: "string \<Rightarrow> string \<Rightarrow> bool" where
  "starts_with s [] = True"
| "starts_with [] (p # ps) = False"
| "starts_with (c # cs) (p # ps) = (c = p \<and> starts_with cs ps)"

function replace_all :: "string \<Rightarrow> string \<Rightarrow> string \<Rightarrow> string" where
  "replace_all old new s =
     (if old = [] then s
      else case s of
             [] \<Rightarrow> []
           | c # cs \<Rightarrow>
               if starts_with s old then new @ replace_all old new (drop (length old) s)
               else c # replace_all old new cs)"
  by pat_completeness auto
termination
  by (relation "measure (\<lambda>(old, new, s). length s)") auto

declare replace_all.simps [simp del]

fun replace_first :: "string \<Rightarrow> string \<Rightarrow> string \<Rightarrow> string" where
  "replace_first old new [] = []"
| "replace_first old new (c # cs) =
     (if starts_with (c # cs) old then new @ drop (length old) (c # cs)
      else c # replace_first old new cs)"

subsection \<open>The regular expressions of the source\<close>

text \<open>
  \<^verbatim>\<open>re.match\<close> anchors at the start of the string only, so characters after the
  match are ignored.  All three query patterns start with the literal \<^verbatim>\<open>TFM\<close>.
\<close>

definition strip_TFM :: "string \<Rightarrow> string option" where
  "strip_TFM s = (if starts_with s ''TFM'' then Some (drop 3 s) else None)"

text \<open>\<^verbatim>\<open>re.match(r'TFM(\d+)', security)\<close>: the group is the longest run of digits.\<close>

definition re_match_generic :: "string \<Rightarrow> string option" where
  "re_match_generic security =
     (case strip_TFM security of
        None \<Rightarrow> None
      | Some rest \<Rightarrow>
          (let ds = takeWhile is_digit rest in if ds = [] then None else Some ds))"

text \<open>
  \<^verbatim>\<open>re.match(r'TFM([A-Za-z]+)(\d+)', security)\<close>.  Letters and digits are disjoint, so
  giving back letters never helps: the first group is the longest run of letters and a
  digit must follow it at once.
\<close>

definition re_match_monthly :: "string \<Rightarrow> (string \<times> string) option" where
  "re_match_monthly security =
     (case strip_TFM security of
        None \<Rightarrow> None
      | Some rest \<Rightarrow>
          (let ls = takeWhile is_alpha rest;
               ds = takeWhile is_digit (dropWhile is_alpha rest)
           in if ls = [] \<or> ds = [] then None else Some (ls, ds)))"

text \<open>\<^verbatim>\<open>re.match(r'TFM([A-Z]{3})([A-Z]{3})(\d+)', spread_code)\<close>.\<close>

definition re_match_spread :: "string \<Rightarrow> (string \<times> string \<times> string) option" where
  "re_match_spread spread_code =
     (case strip_TFM spread_code of
        None \<Rightarrow> None
      | Some rest \<Rightarrow>
          (let m1 = take 3 rest;
               m2 = take 3 (drop 3 rest);
               ds = takeWhile is_digit (drop 6 rest)
           in if length m1 = 3 \<and> list_all is_upper m1 \<and> length m2 = 3 \<and> list_all is_upper m2
                 \<and> ds \<noteq> []
              then Some (m1, m2, ds) else None))"

text \<open>
  \<^verbatim>\<open>re.match(r'.*TFM\\([FGHJKMNQUVXZ])(\d{2})', tfm_code)\<close>: the greedy \<^verbatim>\<open>.*\<close>
  takes the last position at which the rest of the pattern matches, and never crosses a
  newline.
\<close>

definition contract_at :: "string \<Rightarrow> (char \<times> string) option" where
  "contract_at s =
     (if starts_with s (''TFM'' @ [CHR 0x5C]) \<and> 7 \<le> length s
         \<and> s ! 4 \<in> set ''FGHJKMNQUVXZ'' \<and> is_digit (s ! 5) \<and> is_digit (s ! 6)
      then Some (s ! 4, [s ! 5, s ! 6]) else None)"

fun re_match_contract :: "string \<Rightarrow> (char \<times> string) option" where
  "re_match_contract [] = None"
| "re_match_contract (c # cs) =
     (case (if c = CHR 0x0A then None else re_match_contract cs) of
        Some r \<Rightarrow> Some r
      | None \<Rightarrow> contract_at (c # cs))"

section \<open>The calendar table\<close>

text \<open>
  Dates are year, month and day; a timestamp adds the time of day.  Both are compared
  lexicographically, which is the order of \<^verbatim>\<open>pandas.Timestamp\<close> on parsed values.
  The strings handed to \<^verbatim>\<open>pd.to_datetime\<close> are taken as already parsed.
\<close>

type_synonym date = "int \<times> nat \<times> nat"
type_synonym timestamp = "int \<times> nat \<times> nat \<times> nat"

definition to_datetime :: "date \<Rightarrow> timestamp" where
  "to_datetime d = (case d of (y, m, dd) \<Rightarrow> (y, m, dd, 0))"

definition ts_year :: "timestamp \<Rightarrow> int" where
  "ts_year t = fst t"

text \<open>One row of the cleaned DataFrame \<^verbatim>\<open>self.df\<close>; \<open>None\<close> stands for a missing value.\<close>

record row =
  TFM_Code :: string
  TFM_Code_original :: string
  delivery_month :: "string option"
  contract_month :: string
  expiry_date :: date
  month_name :: "string option"
  contract_year :: int

text \<open>One row of the CSV file as \<^verbatim>\<open>pd.read_csv\<close> gives it, its two date columns parsed.\<close>

record raw_row =
  raw_TFM_Code :: string
  raw_contract_month :: date
  raw_expiry_date :: date

text \<open>Lines 27 to 41: \<^verbatim>\<open>parse_contract\<close>.\<close>

definition month_code_map :: "(char \<times> string) list" where
  "month_code_map =
     [(CHR ''F'', ''January''), (CHR ''G'', ''February''), (CHR ''H'', ''March''),
      (CHR ''J'', ''April''), (CHR ''K'', ''May''), (CHR ''M'', ''June''),
      (CHR ''N'', ''July''), (CHR ''Q'', ''August''), (CHR ''U'', ''September''),
      (CHR ''V'', ''October''), (CHR ''X'', ''November''), (CHR ''Z'', ''December'')]"

definition parse_contract :: "string \<Rightarrow> string option" where
  "parse_contract tfm_code =
     (case re_match_contract tfm_code of
        None \<Rightarrow> None
      | Some (month_code, year) \<Rightarrow>
          (case map_of month_code_map month_code of
             None \<Rightarrow> None
           | Some month \<Rightarrow> Some (month @ '' 20'' @ year)))"

definition zfill :: "nat \<Rightarrow> string \<Rightarrow> string" where
  "zfill w s = replicate (w - length s) (CHR ''0'') @ s"

text \<open>\<^verbatim>\<open>strftime('%Y-%m')\<close>; pandas timestamps have four-digit years.\<close>

definition strftime_Ym :: "date \<Rightarrow> string" where
  "strftime_Ym d = (case d of (y, m, dd) \<Rightarrow> zfill 4 (str_int y) @ ''-'' @ zfill 2 (str_nat m))"

text \<open>
  \<^verbatim>\<open>pd.to_datetime(delivery_month, errors='coerce').dt.strftime('%B')\<close>: the delivery
  month is a month name, a space and a year, and \<^verbatim>\<open>%B\<close> gives the name back.
\<close>

definition strftime_B :: "string option \<Rightarrow> string option" where
  "strftime_B dm = map_option (takeWhile (\<lambda>c. c \<noteq> CHR '' '')) dm"

text \<open>Lines 43 to 68: \<^verbatim>\<open>clean_data\<close>, row by row.\<close>

definition clean_row :: "raw_row \<Rightarrow> row" where
  "clean_row r =
     (let code = replace_all ''ENDEX::F:'' '''' (raw_TFM_Code r);
          dm = parse_contract code
      in \<lparr> TFM_Code = code,
           TFM_Code_original = raw_TFM_Code r,
           delivery_month = dm,
           contract_month = strftime_Ym (raw_contract_month r),
           expiry_date = raw_expiry_date r,
           month_name = strftime_B dm,
           contract_year = fst (raw_contract_month r) \<rparr>)"

definition clean_data :: "raw_row list \<Rightarrow> row list" where
  "clean_data raw = map clean_row raw"

section \<open>Query results\<close>

datatype SecurityType = SPECIFIC | GENERIC | MONTHLY_GENERIC | SPREAD

text \<open>
  The optional \<^verbatim>\<open>point_in_time\<close>: absent (\<^verbatim>\<open>None\<close> or an empty string, both falsy),
  a single date, or a pair of dates.
\<close>

datatype point_in_time = NoPointInTime | Single timestamp | Range timestamp timestamp

record month_info =
  mi_month_name :: string
  mi_month_abbr :: string

record expired_notice =
  exp_year :: int
  exp_expiry_date :: date

record next_notice =
  next_year :: int
  next_expiry_date :: date

text \<open>
  The dictionary stored under \<^verbatim>\<open>attrs['metadata']\<close>: with a reference date it has the
  three keys \<^verbatim>\<open>expired_contracts\<close>, \<^verbatim>\<open>next_available\<close> and \<^verbatim>\<open>month_info\<close>, without
  one only \<^verbatim>\<open>month_info\<close>.
\<close>

datatype metadata =
    FullMetadata (expired_contracts: "expired_notice list")
                 (next_available: "next_notice option")
                 (full_month_info: month_info)
  | BasicMetadata month_info

record spread_row =
  spread_code :: string
  contract1_code :: string
  contract1_expiry :: date
  contract2_code :: string
  contract2_expiry :: date
  spread_type :: string

record leg =
  leg_code :: string
  leg_month :: string
  leg_year :: int

record spread_metadata =
  md_spread_type :: string
  leg1 :: leg
  leg2 :: leg

text \<open>
  A returned DataFrame: \<^verbatim>\<open>pd.DataFrame()\<close> (no columns, no rows), a selection of
  calendar rows with its \<^verbatim>\<open>attrs['metadata']\<close> if set, or the one-row spread frame
  with its metadata.
\<close>

datatype frame =
    EmptyDataFrame
  | Frame "row list" "metadata option"
  | SpreadFrame spread_row spread_metadata

fun empty :: "frame \<Rightarrow> bool" where
  "empty EmptyDataFrame = True"
| "empty (Frame rows md) = (rows = [])"
| "empty (SpreadFrame r md) = False"

text \<open>
  \<^verbatim>\<open>df.iloc[start:stop]\<close> with Python's slice rules: a negative bound counts from the
  end, and both bounds are clipped to the length.
\<close>

definition slice_bound :: "nat \<Rightarrow> int \<Rightarrow> nat" where
  "slice_bound len i = (if i < 0 then nat (max 0 (i + int len)) else min (nat i) len)"

definition iloc :: "'a list \<Rightarrow> int \<Rightarrow> int \<Rightarrow> 'a list" where
  "iloc xs start stop =
     (let s = slice_bound (length xs) start; e = slice_bound (length xs) stop
      in take (e - s) (drop s xs))"

text \<open>
  \<^verbatim>\<open>sort_values(col)\<close> is modelled by \<^const>\<open>sort_key\<close>, which keeps rows with
  equal keys in their table order.  The default sort of pandas (\<^verbatim>\<open>kind='quicksort'\<close>)
  promises no order among equal keys, so on ties the source may return another of the
  tied rows than this model does.  No property below states which of several rows with
  equal keys is returned: each either uses only that the result is sorted, or is stated
  for distinct keys.
\<close>

definition month_map :: "(string \<times> string) list" where
  "month_map =
     [(''JAN'', ''January''), (''FEB'', ''February''), (''MAR'', ''March''),
      (''APR'', ''April''), (''MAY'', ''May''), (''JUN'', ''June''),
      (''JUL'', ''July''), (''AUG'', ''August''), (''SEP'', ''September''),
      (''OCT'', ''October''), (''NOV'', ''November''), (''DEC'', ''December'')]"

section \<open>The query interface\<close>

text \<open>Lines 87 to 100: the reference date and the rows left by the point-in-time filter.\<close>

definition reference_date :: "point_in_time \<Rightarrow> timestamp option" where
  "reference_date pit =
     (case pit of
        NoPointInTime \<Rightarrow> None
      | Single t \<Rightarrow> Some t
      | Range start_date end_date \<Rightarrow> Some start_date)"

definition point_in_time_filter :: "row list \<Rightarrow> point_in_time \<Rightarrow> row list" where
  "point_in_time_filter df pit =
     (case pit of
        NoPointInTime \<Rightarrow> df
      | Single t \<Rightarrow> filter (\<lambda>r. to_datetime (expiry_date r) \<ge> t) df
      | Range start_date end_date \<Rightarrow>
          filter (\<lambda>r. to_datetime (expiry_date r) \<ge> start_date
                    \<and> to_datetime (expiry_date r) \<le> end_date) df)"

text \<open>Lines 103 to 106.\<close>

definition specific_branch :: "row list \<Rightarrow> string \<Rightarrow> frame" where
  "specific_branch result_df security =
     (let clean_security = replace_first ''ENDEX::F:'' '''' security
      in Frame (filter (\<lambda>r. TFM_Code r = clean_security) result_df) None)"

text \<open>Lines 108 to 114.\<close>

definition generic_branch :: "row list \<Rightarrow> string \<Rightarrow> frame" where
  "generic_branch result_df security =
     (case re_match_generic security of
        Some ds \<Rightarrow>
          (let sequence_number = int (int_of_digits ds)
           in Frame (iloc (sort_key contract_month result_df)
                          (sequence_number - 1) sequence_number) None)
      | None \<Rightarrow> EmptyDataFrame)"

text \<open>Lines 163 to 181: the notice for the reference year's contract.\<close>

definition expired_notices :: "row list \<Rightarrow> timestamp \<Rightarrow> expired_notice list" where
  "expired_notices monthly_df ref =
     (let reference_year = ts_year ref;
          current_year_contract = filter (\<lambda>r. contract_year r = reference_year) monthly_df
      in case current_year_contract of
           [] \<Rightarrow> []
         | r # _ \<Rightarrow>
             if to_datetime (expiry_date r) < ref
             then [\<lparr> exp_year = reference_year, exp_expiry_date = expiry_date r \<rparr>]
             else [])"

text \<open>Lines 144 to 209: the rows of one month, ranked by contract year.\<close>

definition monthly_contracts ::
  "row list \<Rightarrow> timestamp option \<Rightarrow> month_info \<Rightarrow> int \<Rightarrow> frame" where
  "monthly_contracts result_df ref_date info sequence_number =
     (let monthly_df = filter (\<lambda>r. month_name r = Some (mi_month_name info)) result_df
      in case ref_date of
           Some ref \<Rightarrow>
             (let valid_contracts =
                    sort_key contract_year
                      (filter (\<lambda>r. to_datetime (expiry_date r) > ref) monthly_df);
                  expired = expired_notices monthly_df ref
              in if int (length valid_contracts) \<ge> sequence_number
                 then
                   (let result = iloc valid_contracts (sequence_number - 1) sequence_number;
                        nxt = (case result of
                                 [] \<Rightarrow> None
                               | r # _ \<Rightarrow>
                                   Some \<lparr> next_year = contract_year r,
                                          next_expiry_date = expiry_date r \<rparr>)
                    in Frame result (Some (FullMetadata expired nxt info)))
                 else EmptyDataFrame)
         | None \<Rightarrow>
             (let sorted_df = sort_key contract_year monthly_df
              in if int (length sorted_df) \<ge> sequence_number
                 then Frame (iloc sorted_df (sequence_number - 1) sequence_number)
                            (Some (BasicMetadata info))
                 else EmptyDataFrame))"

text \<open>Lines 116 to 212: parsing the code, then the lookup above.\<close>

definition monthly_generic_branch :: "row list \<Rightarrow> timestamp option \<Rightarrow> string \<Rightarrow> frame" where
  "monthly_generic_branch result_df ref_date security =
     (case re_match_monthly security of
        None \<Rightarrow> EmptyDataFrame
      | Some (abbr, sequence_str) \<Rightarrow>
          (let sequence_number = int (int_of_digits sequence_str);
               month_abbr = upper abbr
           in case map_of month_map month_abbr of
                None \<Rightarrow> EmptyDataFrame
              | Some name \<Rightarrow>
                  monthly_contracts result_df ref_date
                    \<lparr> mi_month_name = name, mi_month_abbr = month_abbr \<rparr> sequence_number))"

text \<open>Lines 273 to 329 of \<^verbatim>\<open>query_spread\<close>: the second leg, from the whole table.\<close>

definition second_leg_year :: "string \<Rightarrow> string \<Rightarrow> int \<Rightarrow> int option" where
  "second_leg_year month1_full month2_full year1 =
     (let month_order = map snd month_map
      in case (index_of month_order month1_full, index_of month_order month2_full) of
           (Some month1_idx, Some month2_idx) \<Rightarrow>
             Some (if month2_idx \<le> month1_idx then year1 + 1 else year1)
         | _ \<Rightarrow> None)"

definition spread_result ::
  "row list \<Rightarrow> string \<Rightarrow> string \<Rightarrow> string \<Rightarrow> string \<Rightarrow> string \<Rightarrow> row \<Rightarrow> frame" where
  "spread_result df code month1_abbr month2_abbr month1_full month2_full contract1 =
     (let year1 = contract_year contract1
      in case second_leg_year month1_full month2_full year1 of
           None \<Rightarrow> EmptyDataFrame
         | Some year2 \<Rightarrow>
             (let month2_contracts = filter (\<lambda>r. month_name r = Some month2_full) df;
                  contract2_candidates = filter (\<lambda>r. contract_year r = year2) month2_contracts
              in case contract2_candidates of
                   [] \<Rightarrow> EmptyDataFrame
                 | contract2 # _ \<Rightarrow>
                     SpreadFrame
                       \<lparr> spread_code = code,
                         contract1_code = TFM_Code contract1,
                         contract1_expiry = expiry_date contract1,
                         contract2_code = TFM_Code contract2,
                         contract2_expiry = expiry_date contract2,
                         spread_type = month1_abbr @ ''-'' @ month2_abbr \<rparr>
                       \<lparr> md_spread_type = month1_abbr @ ''-'' @ month2_abbr,
                         leg1 = \<lparr> leg_code = TFM_Code contract1, leg_month = month1_full,
                                  leg_year = year1 \<rparr>,
                         leg2 = \<lparr> leg_code = TFM_Code contract2, leg_month = month2_full,
                                  leg_year = year2 \<rparr> \<rparr>))"

text \<open>
  \<^verbatim>\<open>DataStore.query\<close> and \<^verbatim>\<open>DataStore.query_spread\<close> over the table \<open>df\<close>.  The
  \<^verbatim>\<open>print\<close> calls are left out.
\<close>

function query :: "row list \<Rightarrow> string \<Rightarrow> SecurityType \<Rightarrow> point_in_time \<Rightarrow> frame"
  and query_spread :: "row list \<Rightarrow> string \<Rightarrow> point_in_time \<Rightarrow> frame" where
  "query df security SPECIFIC pit = specific_branch (point_in_time_filter df pit) security"
| "query df security GENERIC pit = generic_branch (point_in_time_filter df pit) security"
| "query df security MONTHLY_GENERIC pit =
     monthly_generic_branch (point_in_time_filter df pit) (reference_date pit) security"
| "query df security SPREAD pit = query_spread df security pit"
| "query_spread df code pit =
     (case re_match_spread code of
        None \<Rightarrow> EmptyDataFrame
      | Some (month1_abbr, month2_abbr, seq_num) \<Rightarrow>
          (let sequence_number = int_of_digits seq_num
           in case (map_of month_map month1_abbr, map_of month_map month2_abbr) of
                (Some month1_full, Some month2_full) \<Rightarrow>
                  (let month1_query = ''TFM'' @ month1_abbr @ str_nat sequence_number;
                       contract1 = query df month1_query MONTHLY_GENERIC pit
                   in if empty contract1 then EmptyDataFrame
                      else case contract1 of
                             Frame (r1 # _) _ \<Rightarrow>
                               spread_result df code month1_abbr month2_abbr
                                 month1_full month2_full r1
                           | _ \<Rightarrow> EmptyDataFrame)
              | _ \<Rightarrow> EmptyDataFrame))"
  by pat_completeness auto
termination
  by (relation "measure (\<lambda>x. case x of
                     Inl (df, security, ty, pit) \<Rightarrow> (if ty = SPREAD then 2 else 0)
                   | Inr _ \<Rightarrow> 1)") auto

declare query_spread.simps [simp del]

text \<open>The wrappers kept for backward compatibility (lines 415 to 441).\<close>

definition query_specific :: "row list \<Rightarrow> string \<Rightarrow> frame" where
  "query_specific df tfm_code = query df tfm_code SPECIFIC NoPointInTime"


section \<open>Notions used in the statements\<close>

text \<open>
  The candidate rows of a monthly lookup in rank order: the rows of the month that are
  still live at the reference date (all of them without one), by contract year.
\<close>

definition candidates :: "row list \<Rightarrow> timestamp option \<Rightarrow> string \<Rightarrow> row list" where
  "candidates result_df ref_date name =
     sort_key contract_year
       (filter (\<lambda>r. case ref_date of None \<Rightarrow> True | Some ref \<Rightarrow> ref < to_datetime (expiry_date r))
          (filter (\<lambda>r. month_name r = Some name) result_df))"

text \<open>A run of digits that \<^verbatim>\<open>str\<close> can produce: not empty, no leading zero.\<close>

definition canonical :: "string \<Rightarrow> bool" where
  "canonical ds \<longleftrightarrow> ds \<noteq> [] \<and> list_all is_digit ds \<and> (hd ds = CHR ''0'' \<longrightarrow> ds = ''0'')"

text \<open>
  The calendar order of the month abbreviations as the specification words it:
  January is 0, December is 11.
\<close>

definition calendar_index :: "string \<Rightarrow> nat option" where
  "calendar_index abbr =
     index_of [''JAN'', ''FEB'', ''MAR'', ''APR'', ''MAY'', ''JUN'',
               ''JUL'', ''AUG'', ''SEP'', ''OCT'', ''NOV'', ''DEC''] abbr"

text \<open>\<open>has_substring s p\<close>: the string \<open>p\<close> occurs somewhere in \<open>s\<close>.\<close>

fun has_substring :: "string \<Rightarrow> string \<Rightarrow> bool" where
  "has_substring [] p = (p = [])"
| "has_substring (c # cs) p = (starts_with (c # cs) p \<or> has_substring cs p)"

text \<open>Lines 117 to 133: what the monthly branch reads off a code it accepts.\<close>

definition parse_monthly_generic :: "string \<Rightarrow> (string \<times> nat) option" where
  "parse_monthly_generic security =
     (case re_match_monthly security of
        None \<Rightarrow> None
      | Some (abbr, sequence_str) \<Rightarrow>
          (let sequence_number = int_of_digits sequence_str;
               month_abbr = upper abbr
           in if map_of month_map month_abbr = None then None
              else Some (month_abbr, sequence_number)))"

text \<open>Lines 263 and 441: \<^verbatim>\<open>f"TFM{month_abbr}{sequence_number}"\<close>.\<close>

definition monthly_code :: "string \<Rightarrow> nat \<Rightarrow> string" where
  "monthly_code month_abbr sequence_number = ''TFM'' @ month_abbr @ str_nat sequence_number"


subsection \<open>The DataFrame objects of a query\<close>

text \<open>
  To speak about what a query does to \<^verbatim>\<open>self.df\<close>, the same code is followed once
  more on a store of DataFrame objects.  An object has its contents and its \<^verbatim>\<open>attrs\<close>;
  a reference is its position in the store.  Every pandas operation of the source that
  yields a DataFrame (\<^verbatim>\<open>copy\<close>, a boolean mask, \<^verbatim>\<open>sort_values\<close>, \<^verbatim>\<open>iloc\<close>,
  \<^verbatim>\<open>pd.DataFrame(...)\<close>) adds a new object, with the \<^verbatim>\<open>attrs\<close> of the object it was
  taken from; the only writes of the source are the assignments to
  \<^verbatim>\<open>result.attrs['metadata']\<close> (lines 197, 208 and 315).
\<close>

datatype df_contents = NoColumns | Rows "row list" | SpreadRow spread_row

datatype df_attrs = NoMetadata | QueryMetadata metadata | SpreadMetadata spread_metadata

record df_object =
  contents :: df_contents
  attrs :: df_attrs

type_synonym ref = nat
type_synonym store = "df_object list"

text \<open>The object that holds a returned frame.\<close>

fun object_of :: "frame \<Rightarrow> df_object" where
  "object_of EmptyDataFrame = \<lparr> contents = NoColumns, attrs = NoMetadata \<rparr>"
| "object_of (Frame rows None) = \<lparr> contents = Rows rows, attrs = NoMetadata \<rparr>"
| "object_of (Frame rows (Some md)) = \<lparr> contents = Rows rows, attrs = QueryMetadata md \<rparr>"
| "object_of (SpreadFrame sr md) = \<lparr> contents = SpreadRow sr, attrs = SpreadMetadata md \<rparr>"

fun rows_of :: "df_object \<Rightarrow> row list" where
  "rows_of obj = (case contents obj of Rows rows \<Rightarrow> rows | _ \<Rightarrow> [])"

text \<open>Creating an object, copying one, deriving one from the rows of another.\<close>

definition new_object :: "df_object \<Rightarrow> store \<Rightarrow> ref \<times> store" where
  "new_object obj st = (length st, st @ [obj])"

definition copy :: "ref \<Rightarrow> store \<Rightarrow> ref \<times> store" where
  "copy a st = new_object (st ! a) st"

definition select :: "(row list \<Rightarrow> row list) \<Rightarrow> ref \<Rightarrow> store \<Rightarrow> ref \<times> store" where
  "select f a st =
     new_object \<lparr> contents = Rows (f (rows_of (st ! a))), attrs = attrs (st ! a) \<rparr> st"

text \<open>\<^verbatim>\<open>obj.attrs['metadata'] = m\<close>: the one operation that changes an object.\<close>

definition set_attrs :: "ref \<Rightarrow> df_attrs \<Rightarrow> store \<Rightarrow> store" where
  "set_attrs a m st = st[a := (st ! a) \<lparr> attrs := m \<rparr>]"

text \<open>Lines 87 to 100, 103 to 106 and 108 to 114 on the store.\<close>

definition st_point_in_time_filter :: "ref \<Rightarrow> point_in_time \<Rightarrow> store \<Rightarrow> ref \<times> store" where
  "st_point_in_time_filter result_df pit st =
     (case pit of
        NoPointInTime \<Rightarrow> (result_df, st)
      | Single t \<Rightarrow> select (filter (\<lambda>r. to_datetime (expiry_date r) \<ge> t)) result_df st
      | Range start_date end_date \<Rightarrow>
          select (filter (\<lambda>r. to_datetime (expiry_date r) \<ge> start_date
                            \<and> to_datetime (expiry_date r) \<le> end_date)) result_df st)"

definition st_specific_branch :: "ref \<Rightarrow> string \<Rightarrow> store \<Rightarrow> ref \<times> store" where
  "st_specific_branch result_df security st =
     (let clean_security = replace_first ''ENDEX::F:'' '''' security
      in select (filter (\<lambda>r. TFM_Code r = clean_security)) result_df st)"

definition st_generic_branch :: "ref \<Rightarrow> string \<Rightarrow> store \<Rightarrow> ref \<times> store" where
  "st_generic_branch result_df security st =
     (case re_match_generic security of
        Some ds \<Rightarrow>
          (let sequence_number = int (int_of_digits ds);
               (sorted_df, st1) = select (sort_key contract_month) result_df st
           in select (\<lambda>rows. iloc rows (sequence_number - 1) sequence_number) sorted_df st1)
      | None \<Rightarrow> new_object (object_of EmptyDataFrame) st)"

text \<open>Lines 144 to 209 on the store.\<close>

definition st_monthly_contracts ::
  "ref \<Rightarrow> timestamp option \<Rightarrow> month_info \<Rightarrow> int \<Rightarrow> store \<Rightarrow> ref \<times> store" where
  "st_monthly_contracts result_df ref_date info sequence_number st =
     (let (monthly_df, st1) =
            select (filter (\<lambda>r. month_name r = Some (mi_month_name info))) result_df st
      in case ref_date of
           Some ref \<Rightarrow>
             (let (unexpired, st2) =
                    select (filter (\<lambda>r. to_datetime (expiry_date r) > ref)) monthly_df st1;
                  (valid_contracts, st3) = select (sort_key contract_year) unexpired st2;
                  (current_year_contract, st4) =
                    select (filter (\<lambda>r. contract_year r = ts_year ref)) monthly_df st3;
                  expired =
                    (case rows_of (st4 ! current_year_contract) of
                       [] \<Rightarrow> []
                     | r # _ \<Rightarrow>
                         if to_datetime (expiry_date r) < ref
                         then [\<lparr> exp_year = ts_year ref, exp_expiry_date = expiry_date r \<rparr>]
                         else [])
              in if int (length (rows_of (st4 ! valid_contracts))) \<ge> sequence_number
                 then
                   (let (sliced, st5) =
                          select (\<lambda>rows. iloc rows (sequence_number - 1) sequence_number)
                            valid_contracts st4;
                        (result, st6) = copy sliced st5;
                        nxt = (case rows_of (st6 ! result) of
                                 [] \<Rightarrow> None
                               | r # _ \<Rightarrow>
                                   Some \<lparr> next_year = contract_year r,
                                          next_expiry_date = expiry_date r \<rparr>)
                    in (result,
                        set_attrs result (QueryMetadata (FullMetadata expired nxt info)) st6))
                 else new_object (object_of EmptyDataFrame) st4)
         | None \<Rightarrow>
             (let (sorted_df, st2) = select (sort_key contract_year) monthly_df st1
              in if int (length (rows_of (st2 ! sorted_df))) \<ge> sequence_number
                 then
                   (let (sliced, st3) =
                          select (\<lambda>rows. iloc rows (sequence_number - 1) sequence_number)
                            sorted_df st2;
                        (result, st4) = copy sliced st3
                    in (result, set_attrs result (QueryMetadata (BasicMetadata info)) st4))
                 else new_object (object_of EmptyDataFrame) st2))"

text \<open>Lines 116 to 212 on the store.\<close>

definition st_monthly_generic_branch ::
  "ref \<Rightarrow> timestamp option \<Rightarrow> string \<Rightarrow> store \<Rightarrow> ref \<times> store" where
  "st_monthly_generic_branch result_df ref_date security st =
     (case re_match_monthly security of
        None \<Rightarrow> new_object (object_of EmptyDataFrame) st
      | Some (abbr, sequence_str) \<Rightarrow>
          (let sequence_number = int (int_of_digits sequence_str);
               month_abbr = upper abbr
           in case map_of month_map month_abbr of
                None \<Rightarrow> new_object (object_of EmptyDataFrame) st
              | Some name \<Rightarrow>
                  st_monthly_contracts result_df ref_date
                    \<lparr> mi_month_name = name, mi_month_abbr = month_abbr \<rparr> sequence_number st))"

text \<open>
  What a call may do to the store: objects are added after the existing ones, which keep
  their contents; the returned reference is one of the added objects and holds \<open>obj\<close>.
\<close>

definition grows :: "store \<Rightarrow> ref \<times> store \<Rightarrow> df_object \<Rightarrow> bool" where
  "grows st r obj \<longleftrightarrow>
     (\<exists>ext. snd r = st @ ext \<and> length st \<le> fst r \<and> fst r < length st + length ext
         \<and> ext ! (fst r - length st) = obj)"

text \<open>\<^verbatim>\<open>DataFrame.empty\<close> on an object.\<close>

definition obj_empty :: "df_object \<Rightarrow> bool" where
  "obj_empty obj = (case contents obj of NoColumns \<Rightarrow> True | Rows rows \<Rightarrow> rows = []
                    | SpreadRow sr \<Rightarrow> False)"

text \<open>
  Lines 273 to 329 on the store.  The second leg is read from \<^verbatim>\<open>self.df\<close> itself; the
  result frame is created and then given its metadata.
\<close>

definition st_spread_result ::
  "ref \<Rightarrow> string \<Rightarrow> string \<Rightarrow> string \<Rightarrow> string \<Rightarrow> string \<Rightarrow> row \<Rightarrow> store \<Rightarrow> ref \<times> store" where
  "st_spread_result self_df code month1_abbr month2_abbr month1_full month2_full contract1 st =
     (let year1 = contract_year contract1
      in case second_leg_year month1_full month2_full year1 of
           None \<Rightarrow> new_object (object_of EmptyDataFrame) st
         | Some year2 \<Rightarrow>
             (let (month2_contracts, st1) =
                    select (filter (\<lambda>r. month_name r = Some month2_full)) self_df st;
                  (contract2_candidates, st2) =
                    select (filter (\<lambda>r. contract_year r = year2)) month2_contracts st1
              in if rows_of (st2 ! contract2_candidates) = []
                 then new_object (object_of EmptyDataFrame) st2
                 else
                   (let (contract2, st3) =
                          select (\<lambda>rows. iloc rows 0 1) contract2_candidates st2
                    in case rows_of (st3 ! contract2) of
                         [] \<Rightarrow> new_object (object_of EmptyDataFrame) st3
                       | r2 # _ \<Rightarrow>
                           (let (result, st4) =
                                  new_object
                                    \<lparr> contents = SpreadRow
                                        \<lparr> spread_code = code,
                                          contract1_code = TFM_Code contract1,
                                          contract1_expiry = expiry_date contract1,
                                          contract2_code = TFM_Code r2,
                                          contract2_expiry = expiry_date r2,
                                          spread_type = month1_abbr @ ''-'' @ month2_abbr \<rparr>,
                                      attrs = NoMetadata \<rparr> st3
                            in (result,
                                set_attrs result
                                  (SpreadMetadata
                                     \<lparr> md_spread_type = month1_abbr @ ''-'' @ month2_abbr,
                                       leg1 = \<lparr> leg_code = TFM_Code contract1,
                                                leg_month = month1_full, leg_year = year1 \<rparr>,
                                       leg2 = \<lparr> leg_code = TFM_Code r2,
                                                leg_month = month2_full, leg_year = year2 \<rparr> \<rparr>)
                                  st4)))))"

text \<open>
  \<^verbatim>\<open>query\<close> and \<^verbatim>\<open>query_spread\<close> on the store: \<open>self_df\<close> is the reference of
  \<^verbatim>\<open>self.df\<close>; the result is the reference of the returned DataFrame and the store
  after the call.
\<close>

function st_query :: "store \<Rightarrow> ref \<Rightarrow> string \<Rightarrow> SecurityType \<Rightarrow> point_in_time \<Rightarrow> ref \<times> store"
  and st_query_spread :: "store \<Rightarrow> ref \<Rightarrow> string \<Rightarrow> point_in_time \<Rightarrow> ref \<times> store" where
  "st_query st self_df security SPECIFIC pit =
     (let (result_df, st1) = copy self_df st;
          (result_df, st2) = st_point_in_time_filter result_df pit st1
      in st_specific_branch result_df security st2)"
| "st_query st self_df security GENERIC pit =
     (let (result_df, st1) = copy self_df st;
          (result_df, st2) = st_point_in_time_filter result_df pit st1
      in st_generic_branch result_df security st2)"
| "st_query st self_df security MONTHLY_GENERIC pit =
     (let (result_df, st1) = copy self_df st;
          (result_df, st2) = st_point_in_time_filter result_df pit st1
      in st_monthly_generic_branch result_df (reference_date pit) security st2)"
| "st_query st self_df security SPREAD pit =
     (let (result_df, st1) = copy self_df st;
          (result_df, st2) = st_point_in_time_filter result_df pit st1
      in st_query_spread st2 self_df security pit)"
| "st_query_spread st self_df code pit =
     (case re_match_spread code of
        None \<Rightarrow> new_object (object_of EmptyDataFrame) st
      | Some (month1_abbr, month2_abbr, seq_num) \<Rightarrow>
          (let sequence_number = int_of_digits seq_num
           in case (map_of month_map month1_abbr, map_of month_map month2_abbr) of
                (Some month1_full, Some month2_full) \<Rightarrow>
                  (let month1_query = ''TFM'' @ month1_abbr @ str_nat sequence_number;
                       (contract1, st1) = st_query st self_df month1_query MONTHLY_GENERIC pit
                   in if obj_empty (st1 ! contract1)
                      then new_object (object_of EmptyDataFrame) st1
                      else case rows_of (st1 ! contract1) of
                             r1 # _ \<Rightarrow>
                               st_spread_result self_df code month1_abbr month2_abbr
                                 month1_full month2_full r1 st1
                           | [] \<Rightarrow> new_object (object_of EmptyDataFrame) st1)
              | _ \<Rightarrow> new_object (object_of EmptyDataFrame) st))"
  by pat_completeness auto
termination
  by (relation "measure (\<lambda>x. case x of
                     Inl (st, self_df, security, ty, pit) \<Rightarrow> (if ty = SPREAD then 2 else 0)
                   | Inr _ \<Rightarrow> 1)") auto

declare st_query_spread.simps [simp del]

text \<open>The store after a call starts with the store before it.\<close>

definition extends :: "store \<Rightarrow> store \<Rightarrow> bool" where
  "extends st st' \<longleftrightarrow> (\<exists>ext. st' = st @ ext)"

subsection \<open>Example calendars\<close>

definition endex_code :: "string \<Rightarrow> string" where
  "endex_code suffix = ''ENDEX::F:TFM'' @ [CHR 0x5C] @ suffix"

definition raw_calendar :: "raw_row list" where
  "raw_calendar =
     [\<lparr> raw_TFM_Code = endex_code ''J25'', raw_contract_month = (2025, 4, 1),
        raw_expiry_date = (2025, 4, 15) \<rparr>,
      \<lparr> raw_TFM_Code = endex_code ''Z25'', raw_contract_month = (2025, 12, 1),
        raw_expiry_date = (2025, 12, 19) \<rparr>,
      \<lparr> raw_TFM_Code = endex_code ''J26'', raw_contract_month = (2026, 4, 1),
        raw_expiry_date = (2026, 4, 15) \<rparr>,
      \<lparr> raw_TFM_Code = endex_code ''M26'', raw_contract_month = (2026, 6, 1),
        raw_expiry_date = (2026, 6, 17) \<rparr>]"

definition calendar :: "row list" where
  "calendar = clean_data raw_calendar"

definition april_2025 :: row where
  "april_2025 =
     \<lparr> TFM_Code = ''TFM'' @ [CHR 0x5C] @ ''J25'', TFM_Code_original = endex_code ''J25'',
       delivery_month = Some ''April 2025'', contract_month = ''2025-04'',
       expiry_date = (2025, 4, 15), month_name = Some ''April'', contract_year = 2025 \<rparr>"

definition april_2026 :: row where
  "april_2026 =
     \<lparr> TFM_Code = ''TFM'' @ [CHR 0x5C] @ ''J26'', TFM_Code_original = endex_code ''J26'',
       delivery_month = Some ''April 2026'', contract_month = ''2026-04'',
       expiry_date = (2026, 4, 15), month_name = Some ''April'', contract_year = 2026 \<rparr>"

definition april_info :: month_info where
  "april_info = \<lparr> mi_month_name = ''April'', mi_month_abbr = ''APR'' \<rparr>"

definition december_2025 :: row where
  "december_2025 =
     \<lparr> TFM_Code = ''TFM'' @ [CHR 0x5C] @ ''Z25'', TFM_Code_original = endex_code ''Z25'',
       delivery_month = Some ''December 2025'', contract_month = ''2025-12'',
       expiry_date = (2025, 12, 19), month_name = Some ''December'', contract_year = 2025 \<rparr>"

definition june_2026 :: row where
  "june_2026 =
     \<lparr> TFM_Code = ''TFM'' @ [CHR 0x5C] @ ''M26'', TFM_Code_original = endex_code ''M26'',
       delivery_month = Some ''June 2026'', contract_month = ''2026-06'',
       expiry_date = (2026, 6, 17), month_name = Some ''June'', contract_year = 2026 \<rparr>"

definition expired_june_2026 :: row where
  "expired_june_2026 = june_2026 \<lparr> expiry_date := (2024, 6, 17) \<rparr>"

definition irregular_calendar :: "row list" where
  "irregular_calendar =
     clean_data
       [\<lparr> raw_TFM_Code = endex_code ''Z25'', raw_contract_month = (2025, 12, 1),
          raw_expiry_date = (2025, 12, 19) \<rparr>,
        \<lparr> raw_TFM_Code = endex_code ''M26'', raw_contract_month = (2026, 6, 1),
          raw_expiry_date = (2024, 6, 17) \<rparr>,
        \<lparr> raw_TFM_Code = endex_code ''M26'', raw_contract_month = (2026, 6, 1),
          raw_expiry_date = (2026, 6, 17) \<rparr>]"

definition nested_prefix_calendar :: "row list" where
  "nested_prefix_calendar =
     clean_data
       [\<lparr> raw_TFM_Code = ''ENDEX::ENDEX::F:F:TFM'' @ [CHR 0x5C] @ ''J25'', raw_contract_month = (2025, 4, 1),
          raw_expiry_date = (2025, 4, 15) \<rparr>]"

definition calendar_store :: store where
  "calendar_store = [object_of (Frame calendar None)]"

section \<open>Properties\<close>

subsection \<open>Decimal numerals\<close>

lemma lt10_cases: "d < 10 \<Longrightarrow> d \<in> {0, 1, 2, 3, 4, 5, 6, 7, 8, 9::nat}"
  by auto

lemma digit_val_digit_char: "d < 10 \<Longrightarrow> digit_val (digit_char d) = d"
  by (drule lt10_cases) (auto simp: digit_val_def digit_char_def)

lemma is_digit_digit_char: "d < 10 \<Longrightarrow> is_digit (digit_char d)"
  by (drule lt10_cases) (auto simp: is_digit_def digit_char_def)

lemma digit_char_digit_val: "is_digit c \<Longrightarrow> digit_char (digit_val c) = c"
  by (auto simp: is_digit_def digit_val_def digit_char_def)

lemma digit_val_less: "digit_val c < 10"
proof (cases "index_of ''0123456789'' c")
  case None
  then show ?thesis by (simp add: digit_val_def)
next
  case (Some i)
  then show ?thesis by (auto simp: digit_val_def split: if_splits)
qed

lemma digit_val_pos: "is_digit c \<Longrightarrow> c \<noteq> CHR ''0'' \<Longrightarrow> 0 < digit_val c"
  by (auto simp: is_digit_def digit_val_def)

lemma int_of_digits_snoc: "int_of_digits (ds @ [c]) = 10 * int_of_digits ds + digit_val c"
  by (simp add: int_of_digits_def)

lemma int_of_digits_str_nat: "int_of_digits (str_nat n) = n"
proof (induction n rule: str_nat.induct)
  case (1 n)
  show ?case
  proof (cases "n < 10")
    case True
    then show ?thesis
      by (simp add: str_nat.simps [of n] int_of_digits_def digit_val_digit_char)
  next
    case False
    with 1 have "int_of_digits (str_nat (n div 10)) = n div 10" by simp
    with False show ?thesis
      by (simp add: str_nat.simps [of n] int_of_digits_snoc digit_val_digit_char)
  qed
qed

lemma str_nat_digits: "list_all is_digit (str_nat n)"
proof (induction n rule: str_nat.induct)
  case (1 n)
  show ?case
  proof (cases "n < 10")
    case True
    then show ?thesis by (simp add: str_nat.simps [of n] is_digit_digit_char)
  next
    case False
    with 1 show ?thesis by (simp add: str_nat.simps [of n] is_digit_digit_char)
  qed
qed

lemma str_nat_not_Nil: "str_nat n \<noteq> []"
  by (subst str_nat.simps) simp

lemma int_of_digits_pos:
  "ds \<noteq> [] \<Longrightarrow> is_digit (hd ds) \<Longrightarrow> hd ds \<noteq> CHR ''0'' \<Longrightarrow> 0 < int_of_digits ds"
proof (induction ds rule: rev_induct)
  case Nil
  then show ?case by simp
next
  case (snoc c ds)
  show ?case
  proof (cases "ds = []")
    case True
    with snoc.prems show ?thesis by (simp add: int_of_digits_def digit_val_pos)
  next
    case False
    with snoc have "0 < int_of_digits ds" by simp
    then show ?thesis by (simp add: int_of_digits_snoc)
  qed
qed

lemma str_nat_int_of_digits: "canonical ds \<Longrightarrow> str_nat (int_of_digits ds) = ds"
proof (induction ds rule: rev_induct)
  case Nil
  then show ?case by (simp add: canonical_def)
next
  case (snoc c ds)
  from snoc.prems have c: "is_digit c" by (simp add: canonical_def)
  show ?case
  proof (cases "ds = []")
    case True
    with c show ?thesis
      by (simp add: int_of_digits_def str_nat.simps [of "digit_val c"] digit_val_less
          digit_char_digit_val)
  next
    case False
    with snoc.prems have can: "canonical ds" and nz: "hd ds \<noteq> CHR ''0''"
      by (auto simp: canonical_def)
    from can False have "is_digit (hd ds)" by (cases ds) (auto simp: canonical_def)
    with False nz have pos: "0 < int_of_digits ds" by (simp add: int_of_digits_pos)
    have lt: "digit_val c < 10" by (rule digit_val_less)
    from pos lt have "\<not> 10 * int_of_digits ds + digit_val c < 10" by simp
    moreover from lt have "(10 * int_of_digits ds + digit_val c) div 10 = int_of_digits ds"
      by simp
    moreover from lt have "(10 * int_of_digits ds + digit_val c) mod 10 = digit_val c"
      by simp
    ultimately show ?thesis
      using snoc.IH [OF can] c
      by (simp add: int_of_digits_snoc
          str_nat.simps [of "10 * int_of_digits ds + digit_val c"] digit_char_digit_val)
  qed
qed

subsection \<open>Slices\<close>

lemma set_iloc_subset: "set (iloc xs a b) \<subseteq> set xs"
  unfolding iloc_def Let_def
  by (meson order_trans set_take_subset set_drop_subset)

lemma iloc_sequence:
  "iloc xs (int n - 1) (int n) = (if 1 \<le> n \<and> n \<le> length xs then [xs ! (n - 1)] else [])"
proof (cases "n = 0")
  case True
  then show ?thesis by (simp add: iloc_def slice_bound_def)
next
  case False
  then have s: "slice_bound (length xs) (int n - 1) = min (n - 1) (length xs)"
    by (simp add: slice_bound_def nat_diff_distrib')
  have e: "slice_bound (length xs) (int n) = min n (length xs)"
    by (simp add: slice_bound_def)
  show ?thesis
  proof (cases "n \<le> length xs")
    case True
    with False have "min n (length xs) - min (n - 1) (length xs) = 1" by simp
    moreover from True False have "min (n - 1) (length xs) = n - 1" by simp
    moreover from True False have "n - 1 < length xs" by simp
    ultimately show ?thesis using True False
      by (simp add: iloc_def s e take_Suc_conv_app_nth hd_drop_conv_nth take_Suc)
  next
    case False
    then show ?thesis by (simp add: iloc_def s e)
  qed
qed

subsection \<open>Monthly lookups\<close>

lemma monthly_contracts_rows:
  assumes "monthly_contracts result_df ref_date info (int n) = Frame rows md"
  shows "rows = (if 1 \<le> n then [candidates result_df ref_date (mi_month_name info) ! (n - 1)]
                 else [])
           \<and> n \<le> length (candidates result_df ref_date (mi_month_name info))"
proof (cases ref_date)
  case None
  with assms show ?thesis
    by (simp add: monthly_contracts_def candidates_def Let_def iloc_sequence
        del: filter_filter split: if_splits)
next
  case (Some ref)
  with assms show ?thesis
    by (simp add: monthly_contracts_def candidates_def Let_def iloc_sequence
        del: filter_filter split: if_splits)
qed


lemma monthly_contracts_not_Spread:
  "monthly_contracts result_df ref_date info k \<noteq> SpreadFrame sr smd"
  by (cases ref_date) (auto simp: monthly_contracts_def Let_def simp del: filter_filter)

lemma monthly_generic_branch_parsed:
  assumes "monthly_generic_branch result_df ref_date security = Frame rows md"
  obtains abbr ds name where "re_match_monthly security = Some (abbr, ds)"
    and "map_of month_map (upper abbr) = Some name"
    and "monthly_contracts result_df ref_date
           \<lparr> mi_month_name = name, mi_month_abbr = upper abbr \<rparr> (int (int_of_digits ds))
         = Frame rows md"
  using assms
  by (auto simp: monthly_generic_branch_def Let_def split: option.splits prod.splits)

lemma candidates_valid:
  "r \<in> set (candidates result_df (Some t) name) \<Longrightarrow> t < to_datetime (expiry_date r)"
  by (simp add: candidates_def)

lemma sorted_candidates: "sorted (map contract_year (candidates result_df ref_date name))"
  by (simp add: candidates_def)

lemma candidates_rank_mono:
  assumes "1 \<le> n1" "n1 \<le> n2" "n2 \<le> length (candidates result_df ref_date name)"
  shows "contract_year (candidates result_df ref_date name ! (n1 - 1))
           \<le> contract_year (candidates result_df ref_date name ! (n2 - 1))"
proof -
  let ?c = "candidates result_df ref_date name"
  from assms have "n1 - 1 \<le> n2 - 1" and "n2 - 1 < length (map contract_year ?c)" by simp_all
  with sorted_candidates [of result_df ref_date name]
  have "map contract_year ?c ! (n1 - 1) \<le> map contract_year ?c ! (n2 - 1)"
    by (rule sorted_nth_mono)
  with assms show ?thesis by simp
qed

lemma calendar_rows:
  "calendar =
     [april_2025,
      \<lparr> TFM_Code = ''TFM'' @ [CHR 0x5C] @ ''Z25'', TFM_Code_original = endex_code ''Z25'',
        delivery_month = Some ''December 2025'', contract_month = ''2025-12'',
        expiry_date = (2025, 12, 19), month_name = Some ''December'', contract_year = 2025 \<rparr>,
      april_2026,
      \<lparr> TFM_Code = ''TFM'' @ [CHR 0x5C] @ ''M26'', TFM_Code_original = endex_code ''M26'',
        delivery_month = Some ''June 2026'', contract_month = ''2026-06'',
        expiry_date = (2026, 6, 17), month_name = Some ''June'', contract_year = 2026 \<rparr>]"
  by code_simp

text \<open>
  \<^bold>\<open>C2.\<close>  A monthly-generic query with a reference date \<open>t\<close> (a single point in time,
  or the start of a range) returns only rows whose expiry date is strictly after \<open>t\<close>:
  a contract with \<open>expiry_date \<le> t\<close> is never returned.
\<close>

theorem monthly_generic_never_expired:
  assumes "reference_date pit = Some t"
    and "query df security MONTHLY_GENERIC pit = Frame rows md"
    and "r \<in> set rows"
  shows "t < to_datetime (expiry_date r)"
proof -
  from assms(1,2)
  have "monthly_generic_branch (point_in_time_filter df pit) (Some t) security = Frame rows md"
    by simp
  then obtain abbr ds name where
    mc: "monthly_contracts (point_in_time_filter df pit) (Some t)
           \<lparr> mi_month_name = name, mi_month_abbr = upper abbr \<rparr> (int (int_of_digits ds))
         = Frame rows md"
    by (rule monthly_generic_branch_parsed)
  let ?c = "candidates (point_in_time_filter df pit) (Some t) name"
  from monthly_contracts_rows [OF mc] assms(3)
  have "r = ?c ! (int_of_digits ds - 1)" and "1 \<le> int_of_digits ds"
    and "int_of_digits ds \<le> length ?c"
    by (auto split: if_splits)
  then have "r \<in> set ?c" by simp
  then show ?thesis by (rule candidates_valid)
qed

theorem monthly_generic_never_expired_witness:
  "reference_date (Single (2025, 1, 12, 0)) = Some (2025, 1, 12, 0)
   \<and> query calendar ''TFMAPR1'' MONTHLY_GENERIC (Single (2025, 1, 12, 0))
       = Frame [april_2025]
           (Some (FullMetadata []
              (Some \<lparr> next_year = 2025, next_expiry_date = (2025, 4, 15) \<rparr>) april_info))
   \<and> april_2025 \<in> set [april_2025]
   \<and> (2025, 1, 12, 0) < to_datetime (expiry_date april_2025)"
proof -
  have h1: "reference_date (Single (2025, 1, 12, 0)) = Some (2025, 1, 12, 0)"
    by (simp add: reference_date_def)
  have h2: "query calendar ''TFMAPR1'' MONTHLY_GENERIC (Single (2025, 1, 12, 0))
       = Frame [april_2025]
           (Some (FullMetadata []
              (Some \<lparr> next_year = 2025, next_expiry_date = (2025, 4, 15) \<rparr>) april_info))"
    by code_simp
  have h3: "april_2025 \<in> set [april_2025]" by simp
  from monthly_generic_never_expired [OF h1 h2 h3] h1 h2 h3 show ?thesis by blast
qed

text \<open>
  \<^bold>\<open>C7.\<close>  For a fixed month and point in time, the contract year of the result does not
  decrease as the sequence number grows: if two monthly-generic codes name the same month
  with sequence numbers \<open>n1 \<le> n2\<close> and both queries return a contract, the year of the
  first is at most the year of the second.
\<close>

theorem monthly_generic_monotone:
  assumes p1: "re_match_monthly s1 = Some (abbr1, ds1)"
    and p2: "re_match_monthly s2 = Some (abbr2, ds2)"
    and same_month: "upper abbr1 = upper abbr2"
    and le: "int_of_digits ds1 \<le> int_of_digits ds2"
    and q1: "query df s1 MONTHLY_GENERIC pit = Frame rows1 md1"
    and q2: "query df s2 MONTHLY_GENERIC pit = Frame rows2 md2"
    and r1: "r1 \<in> set rows1"
    and r2: "r2 \<in> set rows2"
  shows "contract_year r1 \<le> contract_year r2"
proof -
  let ?df = "point_in_time_filter df pit"
  let ?ref = "reference_date pit"
  from q1 have "monthly_generic_branch ?df ?ref s1 = Frame rows1 md1" by simp
  then obtain a1 d1 name1 where
    "re_match_monthly s1 = Some (a1, d1)" "map_of month_map (upper a1) = Some name1"
    "monthly_contracts ?df ?ref \<lparr> mi_month_name = name1, mi_month_abbr = upper a1 \<rparr>
       (int (int_of_digits d1)) = Frame rows1 md1"
    by (rule monthly_generic_branch_parsed)
  with p1 have n1: "map_of month_map (upper abbr1) = Some name1"
    and m1: "monthly_contracts ?df ?ref \<lparr> mi_month_name = name1, mi_month_abbr = upper abbr1 \<rparr>
       (int (int_of_digits ds1)) = Frame rows1 md1" by simp_all
  from q2 have "monthly_generic_branch ?df ?ref s2 = Frame rows2 md2" by simp
  then obtain a2 d2 name2 where
    "re_match_monthly s2 = Some (a2, d2)" "map_of month_map (upper a2) = Some name2"
    "monthly_contracts ?df ?ref \<lparr> mi_month_name = name2, mi_month_abbr = upper a2 \<rparr>
       (int (int_of_digits d2)) = Frame rows2 md2"
    by (rule monthly_generic_branch_parsed)
  with p2 have n2: "map_of month_map (upper abbr2) = Some name2"
    and m2: "monthly_contracts ?df ?ref \<lparr> mi_month_name = name2, mi_month_abbr = upper abbr2 \<rparr>
       (int (int_of_digits ds2)) = Frame rows2 md2" by simp_all
  from n1 n2 same_month have name: "name2 = name1" by simp
  let ?c = "candidates ?df ?ref name1"
  from monthly_contracts_rows [OF m1] r1
  have a: "r1 = ?c ! (int_of_digits ds1 - 1)" "1 \<le> int_of_digits ds1"
    by (auto split: if_splits)
  from monthly_contracts_rows [OF m2] r2 name
  have b: "r2 = ?c ! (int_of_digits ds2 - 1)" "int_of_digits ds2 \<le> length ?c"
    by (auto split: if_splits)
  from candidates_rank_mono [OF a(2) le b(2)] a(1) b(1) show ?thesis by simp
qed

theorem monthly_generic_monotone_witness:
  "re_match_monthly ''TFMAPR1'' = Some (''APR'', ''1'')
   \<and> re_match_monthly ''TFMapr2'' = Some (''apr'', ''2'')
   \<and> upper ''APR'' = upper ''apr''
   \<and> int_of_digits ''1'' \<le> int_of_digits ''2''
   \<and> query calendar ''TFMAPR1'' MONTHLY_GENERIC NoPointInTime
       = Frame [april_2025] (Some (BasicMetadata april_info))
   \<and> query calendar ''TFMapr2'' MONTHLY_GENERIC NoPointInTime
       = Frame [april_2026] (Some (BasicMetadata april_info))
   \<and> contract_year april_2025 \<le> contract_year april_2026"
proof -
  have p1: "re_match_monthly ''TFMAPR1'' = Some (''APR'', ''1'')" by code_simp
  have p2: "re_match_monthly ''TFMapr2'' = Some (''apr'', ''2'')" by code_simp
  have sm: "upper ''APR'' = upper ''apr''" by code_simp
  have le: "int_of_digits ''1'' \<le> int_of_digits ''2''" by code_simp
  have q1: "query calendar ''TFMAPR1'' MONTHLY_GENERIC NoPointInTime
       = Frame [april_2025] (Some (BasicMetadata april_info))" by code_simp
  have q2: "query calendar ''TFMapr2'' MONTHLY_GENERIC NoPointInTime
       = Frame [april_2026] (Some (BasicMetadata april_info))" by code_simp
  have "contract_year april_2025 \<le> contract_year april_2026"
    by (rule monthly_generic_monotone [OF p1 p2 sm le q1 q2]) simp_all
  with p1 p2 sm le q1 q2 show ?thesis by blast
qed

subsection \<open>Parsing what the source serialises\<close>

lemma digits_not_alpha_all: "\<forall>c \<in> set ''0123456789''. \<not> is_alpha c"
  by code_simp

lemma digit_not_alpha: "is_digit c \<Longrightarrow> \<not> is_alpha c"
  using digits_not_alpha_all unfolding is_digit_def by blast

lemma upper_char_upper_all: "\<forall>c \<in> set ''ABCDEFGHIJKLMNOPQRSTUVWXYZ''. upper_char c = c"
  by code_simp

lemma upper_char_upper: "is_upper c \<Longrightarrow> upper_char c = c"
  using upper_char_upper_all unfolding is_upper_def by blast

lemma upper_of_upper: "list_all is_upper s \<Longrightarrow> upper s = s"
  by (induction s) (simp_all add: upper_def upper_char_upper)

lemma strip_TFM_append: "strip_TFM (''TFM'' @ s) = Some s"
  by (simp add: strip_TFM_def)

lemma takeWhile_alpha_digits: "list_all is_digit ds \<Longrightarrow> takeWhile is_alpha ds = []"
  by (cases ds) (simp_all add: digit_not_alpha)

lemma dropWhile_alpha_digits: "list_all is_digit ds \<Longrightarrow> dropWhile is_alpha ds = ds"
  by (cases ds) (simp_all add: digit_not_alpha)

lemma takeWhile_digit_all: "list_all is_digit ds \<Longrightarrow> takeWhile is_digit ds = ds"
  by (simp add: list_all_iff)

lemma re_match_monthly_serialised:
  assumes "list_all is_alpha ls" "ls \<noteq> []" "list_all is_digit ds" "ds \<noteq> []"
  shows "re_match_monthly (''TFM'' @ ls @ ds) = Some (ls, ds)"
proof -
  from assms(1) have all: "\<And>x. x \<in> set ls \<Longrightarrow> is_alpha x" by (simp add: list_all_iff)
  have t: "takeWhile is_alpha (ls @ ds) = ls"
    using all assms(3) by (simp add: takeWhile_append2 takeWhile_alpha_digits)
  have d: "dropWhile is_alpha (ls @ ds) = ds"
    using all assms(3) by (simp add: dropWhile_append2 dropWhile_alpha_digits)
  show ?thesis
    unfolding re_match_monthly_def strip_TFM_append
    using assms(2,4) by (simp add: t d takeWhile_digit_all [OF assms(3)])
qed

lemma upper_is_alpha: "list_all is_upper s \<Longrightarrow> list_all is_alpha s"
  by (induction s) (simp_all add: is_alpha_def)

lemma first_leg_query:
  assumes "list_all is_upper m1" "m1 \<noteq> []" "map_of month_map m1 = Some f1"
  shows "query df (''TFM'' @ m1 @ str_nat n) MONTHLY_GENERIC pit
         = monthly_contracts (point_in_time_filter df pit) (reference_date pit)
             \<lparr> mi_month_name = f1, mi_month_abbr = m1 \<rparr> (int n)"
proof -
  have "re_match_monthly (''TFM'' @ m1 @ str_nat n) = Some (m1, str_nat n)"
    using assms(1,2) by (intro re_match_monthly_serialised upper_is_alpha str_nat_digits str_nat_not_Nil)
  with assms show ?thesis
    by (simp add: monthly_generic_branch_def upper_of_upper int_of_digits_str_nat)
qed

lemma re_match_spread_months:
  assumes "re_match_spread code = Some (m1, m2, ds)"
  shows "list_all is_upper m1 \<and> m1 \<noteq> [] \<and> list_all is_upper m2 \<and> m2 \<noteq> []"
  using assms
  by (auto simp: re_match_spread_def Let_def split: option.splits if_splits)

subsection \<open>Spreads\<close>

lemma filter_first_find:
  "(case filter P xs of [] \<Rightarrow> a | x # _ \<Rightarrow> b x) = (case find P xs of None \<Rightarrow> a | Some x \<Rightarrow> b x)"
  by (induction xs) simp_all

lemma month_order_index_all:
  "\<forall>(m, f) \<in> set month_map. index_of (map snd month_map) f = calendar_index m"
  by code_simp

lemma month_order_index:
  assumes "map_of month_map m = Some f" "calendar_index m = Some i"
  shows "index_of (map snd month_map) f = Some i"
proof -
  from assms(1) have "(m, f) \<in> set month_map" by (rule map_of_SomeD)
  with month_order_index_all have "index_of (map snd month_map) f = calendar_index m" by blast
  with assms(2) show ?thesis by simp
qed

lemma query_spread_resolved:
  assumes "re_match_spread code = Some (m1, m2, ds)"
    and "map_of month_map m1 = Some f1" and "map_of month_map m2 = Some f2"
  shows "query_spread df code pit =
     (case query df (''TFM'' @ m1 @ str_nat (int_of_digits ds)) MONTHLY_GENERIC pit of
        Frame (r1 # rest) md \<Rightarrow> spread_result df code m1 m2 f1 f2 r1
      | _ \<Rightarrow> EmptyDataFrame)"
proof -
  let ?q = "query df (''TFM'' @ m1 @ str_nat (int_of_digits ds)) MONTHLY_GENERIC pit"
  show ?thesis
  proof (cases ?q)
    case EmptyDataFrame
    with assms show ?thesis by (simp add: query_spread.simps)
  next
    case (Frame rows md)
    with assms show ?thesis by (cases rows) (simp_all add: query_spread.simps)
  next
    case (SpreadFrame sr smd)
    with assms show ?thesis by (simp add: query_spread.simps)
  qed
qed

text \<open>
  \<^bold>\<open>C1.\<close>  In a spread query whose first leg resolves to a contract of year \<open>year1\<close>,
  the second leg is the first calendar row whose month name is the full name of the
  second month and whose contract year is \<open>year1 + 1\<close> when the calendar index of the
  second month (January 0 to December 11) is at most that of the first month, and
  \<open>year1\<close> otherwise; when the calendar has no such row the query returns the empty frame.
\<close>

theorem spread_second_leg_year:
  assumes parse: "re_match_spread code = Some (m1, m2, ds)"
    and f1: "map_of month_map m1 = Some f1" and f2: "map_of month_map m2 = Some f2"
    and i1: "calendar_index m1 = Some i1" and i2: "calendar_index m2 = Some i2"
    and leg1: "query df (''TFM'' @ m1 @ str_nat (int_of_digits ds)) MONTHLY_GENERIC pit
                 = Frame (r1 # rest) md1"
    and year2: "year2 = (if i2 \<le> i1 then contract_year r1 + 1 else contract_year r1)"
  shows "query_spread df code pit =
     (case find (\<lambda>r. month_name r = Some f2 \<and> contract_year r = year2) df of
        None \<Rightarrow> EmptyDataFrame
      | Some r2 \<Rightarrow>
          SpreadFrame
            \<lparr> spread_code = code,
              contract1_code = TFM_Code r1, contract1_expiry = expiry_date r1,
              contract2_code = TFM_Code r2, contract2_expiry = expiry_date r2,
              spread_type = m1 @ ''-'' @ m2 \<rparr>
            \<lparr> md_spread_type = m1 @ ''-'' @ m2,
              leg1 = \<lparr> leg_code = TFM_Code r1, leg_month = f1, leg_year = contract_year r1 \<rparr>,
              leg2 = \<lparr> leg_code = TFM_Code r2, leg_month = f2, leg_year = year2 \<rparr> \<rparr>)"
proof -
  have y: "second_leg_year f1 f2 (contract_year r1) = Some year2"
    using month_order_index [OF f1 i1] month_order_index [OF f2 i2] year2
    by (simp add: second_leg_year_def)
  have "query_spread df code pit = spread_result df code m1 m2 f1 f2 r1"
    using query_spread_resolved [OF parse f1 f2, of df pit] leg1 by simp
  also have "\<dots> =
     (case filter (\<lambda>r. month_name r = Some f2 \<and> contract_year r = year2) df of
        [] \<Rightarrow> EmptyDataFrame
      | r2 # _ \<Rightarrow>
          SpreadFrame
            \<lparr> spread_code = code,
              contract1_code = TFM_Code r1, contract1_expiry = expiry_date r1,
              contract2_code = TFM_Code r2, contract2_expiry = expiry_date r2,
              spread_type = m1 @ ''-'' @ m2 \<rparr>
            \<lparr> md_spread_type = m1 @ ''-'' @ m2,
              leg1 = \<lparr> leg_code = TFM_Code r1, leg_month = f1, leg_year = contract_year r1 \<rparr>,
              leg2 = \<lparr> leg_code = TFM_Code r2, leg_month = f2, leg_year = year2 \<rparr> \<rparr>)"
    by (simp only: spread_result_def Let_def y option.case filter_filter)
  finally show ?thesis by (simp only: filter_first_find)
qed

theorem spread_second_leg_year_witness:
  "re_match_spread ''TFMDECJUN1'' = Some (''DEC'', ''JUN'', ''1'')
   \<and> map_of month_map ''DEC'' = Some ''December'' \<and> map_of month_map ''JUN'' = Some ''June''
   \<and> calendar_index ''DEC'' = Some 11 \<and> calendar_index ''JUN'' = Some 5
   \<and> query calendar ''TFMDEC1'' MONTHLY_GENERIC (Single (2025, 1, 1, 0))
       = Frame [december_2025]
           (Some (FullMetadata []
              (Some \<lparr> next_year = 2025, next_expiry_date = (2025, 12, 19) \<rparr>)
              \<lparr> mi_month_name = ''December'', mi_month_abbr = ''DEC'' \<rparr>))
   \<and> query_spread calendar ''TFMDECJUN1'' (Single (2025, 1, 1, 0))
       = SpreadFrame
          \<lparr> spread_code = ''TFMDECJUN1'',
            contract1_code = TFM_Code december_2025, contract1_expiry = (2025, 12, 19),
            contract2_code = TFM_Code june_2026, contract2_expiry = (2026, 6, 17),
            spread_type = ''DEC-JUN'' \<rparr>
          \<lparr> md_spread_type = ''DEC-JUN'',
            leg1 = \<lparr> leg_code = TFM_Code december_2025, leg_month = ''December'',
                     leg_year = 2025 \<rparr>,
            leg2 = \<lparr> leg_code = TFM_Code june_2026, leg_month = ''June'',
                     leg_year = 2026 \<rparr> \<rparr>"
proof -
  have p: "re_match_spread ''TFMDECJUN1'' = Some (''DEC'', ''JUN'', ''1'')" by code_simp
  have f1: "map_of month_map ''DEC'' = Some ''December''" by code_simp
  have f2: "map_of month_map ''JUN'' = Some ''June''" by code_simp
  have i1: "calendar_index ''DEC'' = Some 11" by code_simp
  have i2: "calendar_index ''JUN'' = Some 5" by code_simp
  have s: "''TFM'' @ ''DEC'' @ str_nat (int_of_digits ''1'') = ''TFMDEC1''" by code_simp
  have q: "query calendar ''TFMDEC1'' MONTHLY_GENERIC (Single (2025, 1, 1, 0))
       = Frame [december_2025]
           (Some (FullMetadata []
              (Some \<lparr> next_year = 2025, next_expiry_date = (2025, 12, 19) \<rparr>)
              \<lparr> mi_month_name = ''December'', mi_month_abbr = ''DEC'' \<rparr>))"
    by code_simp
  have leg1: "query calendar (''TFM'' @ ''DEC'' @ str_nat (int_of_digits ''1'')) MONTHLY_GENERIC
        (Single (2025, 1, 1, 0))
       = Frame (december_2025 # [])
           (Some (FullMetadata []
              (Some \<lparr> next_year = 2025, next_expiry_date = (2025, 12, 19) \<rparr>)
              \<lparr> mi_month_name = ''December'', mi_month_abbr = ''DEC'' \<rparr>))"
    unfolding s by (rule q)
  have y: "(2026::int) = (if (5::nat) \<le> 11 then contract_year december_2025 + 1
                          else contract_year december_2025)"
    by (simp add: december_2025_def)
  have fnd: "find (\<lambda>r. month_name r = Some ''June'' \<and> contract_year r = 2026) calendar
             = Some june_2026"
    by code_simp
  have e1: "expiry_date december_2025 = (2025, 12, 19)" by (simp add: december_2025_def)
  have e2: "expiry_date june_2026 = (2026, 6, 17)" by (simp add: june_2026_def)
  have l: "''DEC'' @ ''-'' @ ''JUN'' = ''DEC-JUN''" by simp
  have c: "contract_year december_2025 = 2025" by (simp add: december_2025_def)
  from spread_second_leg_year [OF p f1 f2 i1 i2 leg1 y]
  have "query_spread calendar ''TFMDECJUN1'' (Single (2025, 1, 1, 0))
       = SpreadFrame
          \<lparr> spread_code = ''TFMDECJUN1'',
            contract1_code = TFM_Code december_2025, contract1_expiry = (2025, 12, 19),
            contract2_code = TFM_Code june_2026, contract2_expiry = (2026, 6, 17),
            spread_type = ''DEC-JUN'' \<rparr>
          \<lparr> md_spread_type = ''DEC-JUN'',
            leg1 = \<lparr> leg_code = TFM_Code december_2025, leg_month = ''December'',
                     leg_year = 2025 \<rparr>,
            leg2 = \<lparr> leg_code = TFM_Code june_2026, leg_month = ''June'',
                     leg_year = 2026 \<rparr> \<rparr>"
    by (simp only: fnd option.case e1 e2 l c)
  with p f1 f2 i1 i2 q show ?thesis by blast
qed






lemma irregular_calendar_rows:
  "irregular_calendar = [december_2025] @ expired_june_2026 # [june_2026]"
  by code_simp


subsection \<open>Expired-contract notices\<close>

lemma point_in_time_filter_live:
  assumes "reference_date pit = Some ref" "r \<in> set (point_in_time_filter df pit)"
  shows "ref \<le> to_datetime (expiry_date r)"
  using assms by (cases pit) (auto simp: reference_date_def point_in_time_filter_def)

lemma expired_notices_live:
  assumes "\<forall>r \<in> set monthly_df. ref \<le> to_datetime (expiry_date r)"
  shows "expired_notices monthly_df ref = []"
proof (cases "filter (\<lambda>r. contract_year r = ts_year ref) monthly_df")
  case Nil
  then show ?thesis by (simp add: expired_notices_def)
next
  case (Cons r rest)
  then have "r \<in> set (filter (\<lambda>r. contract_year r = ts_year ref) monthly_df)" by simp
  then have "r \<in> set monthly_df" by simp
  with assms have "\<not> to_datetime (expiry_date r) < ref" by auto
  with Cons show ?thesis by (simp add: expired_notices_def)
qed

lemma expired_contracts_always_empty:
  assumes "query df security MONTHLY_GENERIC pit = Frame rows (Some (FullMetadata ex nx info))"
  shows "ex = []"
proof -
  let ?df = "point_in_time_filter df pit"
  from assms have "monthly_generic_branch ?df (reference_date pit) security
                     = Frame rows (Some (FullMetadata ex nx info))" by simp
  then obtain abbr ds name where
    mc: "monthly_contracts ?df (reference_date pit)
           \<lparr> mi_month_name = name, mi_month_abbr = upper abbr \<rparr> (int (int_of_digits ds))
         = Frame rows (Some (FullMetadata ex nx info))"
    by (rule monthly_generic_branch_parsed)
  show ?thesis
  proof (cases "reference_date pit")
    case None
    with mc show ?thesis by (simp add: monthly_contracts_def Let_def split: if_splits)
  next
    case (Some ref)
    have "\<forall>r \<in> set (filter (\<lambda>r. month_name r = Some name) ?df). ref \<le> to_datetime (expiry_date r)"
      using point_in_time_filter_live [OF Some] by auto
    then have "expired_notices (filter (\<lambda>r. month_name r = Some name) ?df) ref = []"
      by (rule expired_notices_live)
    with mc Some show ?thesis
      by (simp add: monthly_contracts_def Let_def del: filter_filter split: if_splits)
  qed
qed

text \<open>
  \<^bold>\<open>C3.\<close>  The calendar holds April 2025 (expiry 2025-04-15) and April 2026 (expiry
  2026-04-15).  The query for the first April contract on 2025-05-01 returns April 2026,
  and its metadata holds no expired-contract notice for April 2025: the notice is looked
  up among rows that the point-in-time filter has already restricted to
  \<open>expiry_date \<ge> t\<close>, so (lemma \<open>expired_contracts_always_empty\<close>) the list is empty
  for every query.
\<close>

theorem expired_april_2025_not_reported:
  "query calendar ''TFMAPR1'' MONTHLY_GENERIC (Single (2025, 5, 1, 0))
     = Frame [april_2026]
         (Some (FullMetadata []
            (Some \<lparr> next_year = 2026, next_expiry_date = (2026, 4, 15) \<rparr>) april_info))"
  by code_simp

subsection \<open>Generic codes\<close>














subsection \<open>Specific codes\<close>

lemma replace_first_absent: "\<not> has_substring s p \<Longrightarrow> replace_first p new s = s"
  by (induction s) simp_all

lemma starts_with_append: "starts_with (p @ s) p"
  by (induction p) simp_all

lemma replace_first_prefix:
  assumes "p \<noteq> []"
  shows "replace_first p [] (p @ s) = s"
proof -
  from assms obtain x xs where p: "p = x # xs" by (cases p) auto
  have "starts_with ((x # xs) @ s) (x # xs)" by (rule starts_with_append)
  then show ?thesis unfolding p by simp
qed

lemma unique_code_row:
  assumes "distinct (map TFM_Code df)" "c \<in> TFM_Code ` set df"
  shows "\<exists>r. r \<in> set df \<and> TFM_Code r = c \<and> filter (\<lambda>r. TFM_Code r = c) df = [r]"
  using assms
proof (induction df)
  case Nil
  then show ?case by simp
next
  case (Cons a df)
  show ?case
  proof (cases "TFM_Code a = c")
    case True
    with Cons.prems(1) have "c \<notin> TFM_Code ` set df" by auto
    then have "filter (\<lambda>r. TFM_Code r = c) df = []" by (auto simp: filter_empty_conv)
    with True show ?thesis by auto
  next
    case False
    with Cons.prems have "distinct (map TFM_Code df)" "c \<in> TFM_Code ` set df" by auto
    with Cons.IH obtain r where "r \<in> set df" "TFM_Code r = c"
      "filter (\<lambda>r. TFM_Code r = c) df = [r]" by blast
    with False show ?thesis by auto
  qed
qed

text \<open>
  \<^bold>\<open>C6\<close> (amended).  For a code \<open>c\<close> in which \<^verbatim>\<open>ENDEX::F:\<close> does not occur, the
  specific query returns exactly the rows whose code is \<open>c\<close>, the same with and without
  the prefix on the input; when the codes of the table are distinct and \<open>c\<close> is one of
  them, that is a single row.
\<close>

theorem specific_lookup:
  assumes "\<not> has_substring c ''ENDEX::F:''"
  shows "query_specific df c = Frame (filter (\<lambda>r. TFM_Code r = c) df) None
     \<and> query_specific df (''ENDEX::F:'' @ c) = query_specific df c
     \<and> (distinct (map TFM_Code df) \<and> c \<in> TFM_Code ` set df \<longrightarrow>
          (\<exists>r. r \<in> set df \<and> TFM_Code r = c \<and> query_specific df c = Frame [r] None))"
proof -
  have a: "replace_first ''ENDEX::F:'' '''' c = c"
    using assms by (rule replace_first_absent)
  have b: "replace_first ''ENDEX::F:'' '''' (''ENDEX::F:'' @ c) = c"
    by (rule replace_first_prefix) simp
  have q: "query_specific df c = Frame (filter (\<lambda>r. TFM_Code r = c) df) None"
    by (simp only: query_specific_def query.simps specific_branch_def Let_def a
        point_in_time_filter_def point_in_time.case)
  have p: "query_specific df (''ENDEX::F:'' @ c) = Frame (filter (\<lambda>r. TFM_Code r = c) df) None"
    by (simp only: query_specific_def query.simps specific_branch_def Let_def b
        point_in_time_filter_def point_in_time.case)
  from q p unique_code_row [of df c] show ?thesis by auto
qed

theorem specific_lookup_witness:
  "\<not> has_substring (TFM_Code april_2025) ''ENDEX::F:''
   \<and> query_specific calendar (TFM_Code april_2025) = Frame [april_2025] None
   \<and> query_specific calendar (''ENDEX::F:'' @ TFM_Code april_2025) = Frame [april_2025] None"
proof -
  have h: "\<not> has_substring (TFM_Code april_2025) ''ENDEX::F:''" by code_simp
  have f: "filter (\<lambda>r. TFM_Code r = TFM_Code april_2025) calendar = [april_2025]" by code_simp
  from specific_lookup [OF h, of calendar] h f show ?thesis by simp
qed

text \<open>
  The claim as first stated covers every code of the table.  Loading the raw code
  \<^verbatim>\<open>ENDEX::ENDEX::F:F:TFM\J25\<close> removes the one occurrence of the prefix and leaves the
  code \<^verbatim>\<open>ENDEX::F:TFM\J25\<close> in the table; the query for that code strips it again and
  finds nothing, while the query with one more prefix finds the row.
\<close>

theorem specific_nested_prefix_counterexample:
  "map TFM_Code nested_prefix_calendar = [''ENDEX::F:TFM'' @ [CHR 0x5C] @ ''J25'']
   \<and> query_specific nested_prefix_calendar (''ENDEX::F:TFM'' @ [CHR 0x5C] @ ''J25'') = Frame [] None
   \<and> query_specific nested_prefix_calendar (''ENDEX::F:'' @ ''ENDEX::F:TFM'' @ [CHR 0x5C] @ ''J25'')
       = Frame nested_prefix_calendar None"
  by code_simp

subsection \<open>Parsing and serialising monthly codes\<close>


lemma upper_char_alpha_all:
  "\<forall>c \<in> set (''ABCDEFGHIJKLMNOPQRSTUVWXYZ'' @ ''abcdefghijklmnopqrstuvwxyz'').
     is_upper (upper_char c)"
  by code_simp

lemma upper_char_alpha: "is_alpha c \<Longrightarrow> is_upper (upper_char c)"
  using upper_char_alpha_all unfolding is_alpha_def is_upper_def is_lower_def
  by (metis Un_iff set_append)

lemma upper_alpha: "list_all is_alpha s \<Longrightarrow> list_all is_upper (upper s)"
  by (induction s) (simp_all add: upper_def upper_char_alpha)

lemma upper_char_digit_all: "\<forall>c \<in> set ''0123456789''. upper_char c = c"
  by code_simp

lemma upper_char_digit: "is_digit c \<Longrightarrow> upper_char c = c"
  using upper_char_digit_all unfolding is_digit_def by blast

lemma upper_digits: "list_all is_digit ds \<Longrightarrow> upper ds = ds"
  by (induction ds) (simp_all add: upper_def upper_char_digit)

lemma upper_append: "upper (a @ b) = upper a @ upper b"
  by (simp add: upper_def)

lemma re_match_monthly_alpha:
  assumes "re_match_monthly s = Some (ls, ds)"
  shows "list_all is_alpha ls \<and> ls \<noteq> []"
proof -
  from assms obtain rest where "ls = takeWhile is_alpha rest" "ls \<noteq> []"
    by (auto simp: re_match_monthly_def Let_def split: option.splits if_splits)
  then show ?thesis
    by (auto simp: list_all_iff dest: set_takeWhileD)
qed

lemma parse_monthly_generic_SomeD:
  assumes "parse_monthly_generic s = Some (abbr, n)"
  obtains ls ds where "re_match_monthly s = Some (ls, ds)" "abbr = upper ls"
    "n = int_of_digits ds" "map_of month_map abbr \<noteq> None"
  using assms
  by (auto simp: parse_monthly_generic_def Let_def split: option.splits prod.splits if_splits)

lemma parse_monthly_code:
  assumes "list_all is_upper abbr" "abbr \<noteq> []" "map_of month_map abbr \<noteq> None"
  shows "parse_monthly_generic (monthly_code abbr n) = Some (abbr, n)"
proof -
  have "re_match_monthly (''TFM'' @ abbr @ str_nat n) = Some (abbr, str_nat n)"
    using assms(1,2)
    by (intro re_match_monthly_serialised upper_is_alpha str_nat_digits str_nat_not_Nil)
  with assms show ?thesis
    by (simp add: parse_monthly_generic_def monthly_code_def upper_of_upper int_of_digits_str_nat)
qed

text \<open>
  \<^bold>\<open>C8\<close> (amended).  When the parser accepts a monthly-generic code as
  \<open>(month_abbr, sequence)\<close>, the code \<^verbatim>\<open>TFM<abbr><n>\<close> serialised from the pair parses
  to the same pair; and it is the original string up to letter case whenever the original
  is \<^verbatim>\<open>TFM\<close>, letters and a sequence number written without leading zeros, with
  nothing after it.
\<close>

theorem monthly_code_roundtrip:
  assumes "parse_monthly_generic s = Some (abbr, n)"
  shows "parse_monthly_generic (monthly_code abbr n) = Some (abbr, n)
       \<and> (\<forall>ls ds. s = ''TFM'' @ ls @ ds \<and> list_all is_alpha ls \<and> canonical ds
             \<longrightarrow> upper (monthly_code abbr n) = upper s)"
proof (intro conjI allI impI)
  from assms obtain ls0 ds0 where m: "re_match_monthly s = Some (ls0, ds0)"
    and abbr: "abbr = upper ls0" and n: "n = int_of_digits ds0"
    and known: "map_of month_map abbr \<noteq> None"
    by (rule parse_monthly_generic_SomeD)
  from re_match_monthly_alpha [OF m] have "list_all is_upper abbr" "abbr \<noteq> []"
    by (simp_all add: abbr upper_alpha) (simp add: upper_def)
  with known show "parse_monthly_generic (monthly_code abbr n) = Some (abbr, n)"
    by (simp add: parse_monthly_code)
  fix ls ds
  assume a: "s = ''TFM'' @ ls @ ds \<and> list_all is_alpha ls \<and> canonical ds"
  then have s: "s = ''TFM'' @ ls @ ds" and ls: "list_all is_alpha ls" and can: "canonical ds"
    by simp_all
  from can have ds: "list_all is_digit ds" "ds \<noteq> []" by (simp_all add: canonical_def)
  have ne: "ls \<noteq> []"
  proof
    assume "ls = []"
    with s ds have "re_match_monthly s = None"
      by (simp add: re_match_monthly_def strip_TFM_append [simplified] takeWhile_alpha_digits)
    with m show False by simp
  qed
  from ls ne ds have "re_match_monthly s = Some (ls, ds)"
    unfolding s by (rule re_match_monthly_serialised)
  with m have eq: "ls0 = ls" "ds0 = ds" by simp_all
  have "monthly_code abbr n = ''TFM'' @ upper ls @ ds"
    by (simp add: monthly_code_def abbr n eq str_nat_int_of_digits [OF can])
  then have "upper (monthly_code abbr n) = upper ''TFM'' @ upper (upper ls) @ upper ds"
    by (simp only: upper_append)
  also have "upper (upper ls) = upper ls"
    by (rule upper_of_upper) (rule upper_alpha [OF ls])
  finally show "upper (monthly_code abbr n) = upper s"
    by (simp only: s upper_append)
qed

theorem monthly_code_roundtrip_witness:
  "parse_monthly_generic ''TFMapr2'' = Some (''APR'', 2)
   \<and> parse_monthly_generic (monthly_code ''APR'' 2) = Some (''APR'', 2)
   \<and> ''TFMapr2'' = ''TFM'' @ ''apr'' @ ''2'' \<and> list_all is_alpha ''apr'' \<and> canonical ''2''
   \<and> upper (monthly_code ''APR'' 2) = upper ''TFMapr2''"
proof -
  have h: "parse_monthly_generic ''TFMapr2'' = Some (''APR'', 2)" by code_simp
  have c: "''TFMapr2'' = ''TFM'' @ ''apr'' @ ''2'' \<and> list_all is_alpha ''apr'' \<and> canonical ''2''"
    by code_simp
  from monthly_code_roundtrip [OF h]
  have "parse_monthly_generic (monthly_code ''APR'' 2) = Some (''APR'', 2)"
    and "\<forall>ls ds. ''TFMapr2'' = ''TFM'' @ ls @ ds \<and> list_all is_alpha ls \<and> canonical ds
             \<longrightarrow> upper (monthly_code ''APR'' 2) = upper ''TFMapr2''"
    by blast+
  with h c show ?thesis by blast
qed

text \<open>
  The claim as first stated covers every accepted string.  The parser also accepts
  leading zeros in the sequence and any characters after it, and neither is reproduced.
\<close>

theorem monthly_code_roundtrip_counterexample:
  "parse_monthly_generic ''TFMAPR01'' = Some (''APR'', 1)
   \<and> upper (monthly_code ''APR'' 1) = ''TFMAPR1''
   \<and> upper ''TFMAPR01'' = ''TFMAPR01''
   \<and> upper (monthly_code ''APR'' 1) \<noteq> upper ''TFMAPR01''
   \<and> parse_monthly_generic ''TFMAPR1x'' = Some (''APR'', 1)
   \<and> upper (monthly_code ''APR'' 1) \<noteq> upper ''TFMAPR1x''"
  by code_simp

subsection \<open>Malformed references and references without data\<close>










lemma grows_new_object: "grows st (new_object obj st) obj"
  by (simp add: grows_def new_object_def)

lemma grows_select:
  "grows st (select f a st) \<lparr> contents = Rows (f (rows_of (st ! a))), attrs = attrs (st ! a) \<rparr>"
  unfolding select_def by (rule grows_new_object)

lemma st_specific_branch_grows:
  assumes "result_df < length st" "st ! result_df = object_of (Frame rows None)"
  shows "grows st (st_specific_branch result_df security st)
           (object_of (specific_branch rows security))"
  using assms grows_select [of st _ result_df]
  by (simp add: st_specific_branch_def specific_branch_def Let_def)

lemma st_generic_branch_grows:
  assumes "result_df < length st" "st ! result_df = object_of (Frame rows None)"
  shows "grows st (st_generic_branch result_df security st)
           (object_of (generic_branch rows security))"
proof (cases "re_match_generic security")
  case None
  then show ?thesis
    by (simp add: st_generic_branch_def generic_branch_def grows_new_object)
next
  case (Some ds)
  with assms show ?thesis
    by (simp add: st_generic_branch_def generic_branch_def Let_def select_def new_object_def
        grows_def nth_append)
qed

lemma st_monthly_contracts_grows:
  assumes "result_df < length st" "st ! result_df = object_of (Frame rows None)"
  shows "grows st (st_monthly_contracts result_df ref_date info n st)
           (object_of (monthly_contracts rows ref_date info n))"
proof (cases ref_date)
  case None
  with assms show ?thesis
    by (simp add: st_monthly_contracts_def monthly_contracts_def Let_def select_def copy_def
        new_object_def set_attrs_def grows_def nth_append list_update_append
        del: filter_filter)
next
  case (Some ref)
  with assms show ?thesis
    by (simp add: st_monthly_contracts_def monthly_contracts_def expired_notices_def Let_def
        select_def copy_def new_object_def set_attrs_def grows_def nth_append
        list_update_append del: filter_filter)
qed

lemma growsE:
  assumes "grows st r obj"
  obtains a st' where "r = (a, st')" "length st \<le> length st'"
    "\<forall>b < length st. st' ! b = st ! b" "length st \<le> a" "a < length st'" "st' ! a = obj"
proof -
  from assms obtain ext where e: "snd r = st @ ext" "length st \<le> fst r"
    "fst r < length st + length ext" "ext ! (fst r - length st) = obj"
    unfolding grows_def by blast
  show thesis
  proof (rule that [of "fst r" "snd r"])
    show "r = (fst r, snd r)" by simp
    show "length st \<le> length (snd r)" by (simp add: e(1))
    show "\<forall>b < length st. snd r ! b = st ! b" by (simp add: e(1) nth_append)
    show "length st \<le> fst r" by (rule e(2))
    show "fst r < length (snd r)" using e(3) by (simp add: e(1))
    show "snd r ! fst r = obj" using e(2,4) by (simp add: e(1) nth_append)
  qed
qed

lemma grows_trans:
  assumes "grows st r1 obj1" "grows (snd r1) r2 obj2"
  shows "grows st r2 obj2"
proof -
  from assms(1) obtain ext1 where e1: "snd r1 = st @ ext1" unfolding grows_def by blast
  from assms(2) obtain ext2 where e2: "snd r2 = snd r1 @ ext2" "length (snd r1) \<le> fst r2"
    "fst r2 < length (snd r1) + length ext2" "ext2 ! (fst r2 - length (snd r1)) = obj2"
    unfolding grows_def by blast
  have "snd r2 = st @ (ext1 @ ext2)" by (simp add: e2(1) e1)
  moreover have "length st \<le> fst r2" using e2(2) by (simp add: e1)
  moreover have "fst r2 < length st + length (ext1 @ ext2)" using e2(3) by (simp add: e1)
  moreover have "(ext1 @ ext2) ! (fst r2 - length st) = obj2"
    using e2(2,4) by (simp add: e1 nth_append)
  ultimately show ?thesis unfolding grows_def by blast
qed

lemma grows_copy: "grows st (copy a st) (st ! a)"
  unfolding copy_def by (rule grows_new_object)

lemma st_point_in_time_filter_spec:
  assumes "result_df < length st" "st ! result_df = object_of (Frame rows None)"
  obtains a st' where "st_point_in_time_filter result_df pit st = (a, st')"
    "length st \<le> length st'" "\<forall>b < length st. st' ! b = st ! b"
    "a < length st'" "st' ! a = object_of (Frame (point_in_time_filter rows pit) None)"
proof (cases pit)
  case NoPointInTime
  with assms show ?thesis
    by (intro that [of result_df st])
      (simp_all add: st_point_in_time_filter_def point_in_time_filter_def)
next
  case (Single t)
  let ?f = "filter (\<lambda>r. to_datetime (expiry_date r) \<ge> t)"
  from grows_select [of st ?f result_df] obtain a st' where
    "select ?f result_df st = (a, st')" "length st \<le> length st'"
    "\<forall>b < length st. st' ! b = st ! b" "a < length st'"
    "st' ! a = \<lparr> contents = Rows (?f (rows_of (st ! result_df))),
                 attrs = attrs (st ! result_df) \<rparr>"
    by (rule growsE)
  with assms Single show ?thesis
    by (intro that [of a st'])
      (simp_all add: st_point_in_time_filter_def point_in_time_filter_def)
next
  case (Range s e)
  let ?f = "filter (\<lambda>r. to_datetime (expiry_date r) \<ge> s \<and> to_datetime (expiry_date r) \<le> e)"
  from grows_select [of st ?f result_df] obtain a st' where
    "select ?f result_df st = (a, st')" "length st \<le> length st'"
    "\<forall>b < length st. st' ! b = st ! b" "a < length st'"
    "st' ! a = \<lparr> contents = Rows (?f (rows_of (st ! result_df))),
                 attrs = attrs (st ! result_df) \<rparr>"
    by (rule growsE)
  with assms Range show ?thesis
    by (intro that [of a st'])
      (simp_all add: st_point_in_time_filter_def point_in_time_filter_def)
qed

lemma st_monthly_generic_branch_grows:
  assumes "result_df < length st" "st ! result_df = object_of (Frame rows None)"
  shows "grows st (st_monthly_generic_branch result_df ref_date security st)
           (object_of (monthly_generic_branch rows ref_date security))"
  using assms
  by (auto simp: st_monthly_generic_branch_def monthly_generic_branch_def Let_def
      grows_new_object st_monthly_contracts_grows split: option.splits)

lemma iloc_first: "iloc (r # rest) 0 1 = [r]"
  by (simp add: iloc_def slice_bound_def)

lemma st_spread_result_grows:
  assumes "self_df < length st" "st ! self_df = object_of (Frame df None)"
  shows "grows st (st_spread_result self_df code m1 m2 f1 f2 contract1 st)
           (object_of (spread_result df code m1 m2 f1 f2 contract1))"
proof (cases "second_leg_year f1 f2 (contract_year contract1)")
  case None
  then show ?thesis
    by (simp add: st_spread_result_def spread_result_def grows_new_object)
next
  case (Some year2)
  show ?thesis
  proof (cases "filter (\<lambda>r. contract_year r = year2) (filter (\<lambda>r. month_name r = Some f2) df)")
    case Nil
    with assms Some show ?thesis
      by (simp add: st_spread_result_def spread_result_def Let_def select_def new_object_def
          grows_def nth_append del: filter_filter)
  next
    case (Cons r2 rest)
    with assms Some show ?thesis
      by (simp add: st_spread_result_def spread_result_def Let_def select_def new_object_def
          set_attrs_def grows_def nth_append list_update_append iloc_first
          del: filter_filter)
  qed
qed

lemma extends_refl: "extends st st"
  by (simp add: extends_def)

lemma extends_nth: "extends st st' \<Longrightarrow> b < length st \<Longrightarrow> st' ! b = st ! b"
  by (auto simp: extends_def nth_append)

lemma extends_length: "extends st st' \<Longrightarrow> length st \<le> length st'"
  by (auto simp: extends_def)

lemma extends_trans: "extends st st1 \<Longrightarrow> extends st1 st2 \<Longrightarrow> extends st st2"
  by (auto simp: extends_def)

lemma grows_extends: "grows st r obj \<Longrightarrow> extends st (snd r)"
  by (auto simp: grows_def extends_def)

lemma extends_grows:
  assumes "extends st st1" "grows st1 r obj"
  shows "grows st r obj"
proof -
  from assms(1) obtain ext1 where e1: "st1 = st @ ext1" unfolding extends_def by blast
  from assms(2) obtain ext2 where e2: "snd r = st1 @ ext2" "length st1 \<le> fst r"
    "fst r < length st1 + length ext2" "ext2 ! (fst r - length st1) = obj"
    unfolding grows_def by blast
  have "snd r = st @ (ext1 @ ext2)" by (simp add: e2(1) e1)
  moreover have "length st \<le> fst r" using e2(2) by (simp add: e1)
  moreover have "fst r < length st + length (ext1 @ ext2)" using e2(3) by (simp add: e1)
  moreover have "(ext1 @ ext2) ! (fst r - length st) = obj"
    using e2(2,4) by (simp add: e1 nth_append)
  ultimately show ?thesis unfolding grows_def by blast
qed

lemma st_prelude:
  assumes "self_df < length st" "st ! self_df = object_of (Frame df None)"
  obtains a st2 where
    "(case copy self_df st of (result_df, st1) \<Rightarrow> st_point_in_time_filter result_df pit st1)
       = (a, st2)"
    "extends st st2" "a < length st2"
    "st2 ! a = object_of (Frame (point_in_time_filter df pit) None)"
proof -
  have e1: "extends st (st @ [st ! self_df])" by (simp add: extends_def)
  have c: "copy self_df st = (length st, st @ [st ! self_df])"
    by (simp add: copy_def new_object_def)
  have "length st < length (st @ [st ! self_df])" by simp
  moreover have "(st @ [st ! self_df]) ! length st = object_of (Frame df None)"
    by (simp add: assms(2))
  ultimately obtain a st2 where
    f: "st_point_in_time_filter (length st) pit (st @ [st ! self_df]) = (a, st2)"
    and l: "length (st @ [st ! self_df]) \<le> length st2"
    and p: "\<forall>b < length (st @ [st ! self_df]). st2 ! b = (st @ [st ! self_df]) ! b"
    and a: "a < length st2"
    and o: "st2 ! a = object_of (Frame (point_in_time_filter df pit) None)"
    by (rule st_point_in_time_filter_spec)
  have "extends st st2"
  proof -
    have "take (length st) st2 = st"
    proof (rule nth_equalityI)
      show "length (take (length st) st2) = length st" using l by simp
      show "take (length st) st2 ! i = st ! i" if "i < length (take (length st) st2)" for i
        using that p l by (simp add: nth_append)
    qed
    then have "st2 = st @ drop (length st) st2" by (metis append_take_drop_id)
    then show ?thesis unfolding extends_def by blast
  qed
  with f a o show thesis by (intro that [of a st2]) (simp_all add: c)
qed

lemma st_query_prelude:
  assumes "(case copy self_df st of (result_df, st1) \<Rightarrow>
             st_point_in_time_filter result_df pit st1) = (a, st2)"
  shows "st_query st self_df security SPECIFIC pit = st_specific_branch a security st2"
    and "st_query st self_df security GENERIC pit = st_generic_branch a security st2"
    and "st_query st self_df security MONTHLY_GENERIC pit
           = st_monthly_generic_branch a (reference_date pit) security st2"
    and "st_query st self_df security SPREAD pit = st_query_spread st2 self_df security pit"
proof -
  obtain r1 s1 where c: "copy self_df st = (r1, s1)" by (cases "copy self_df st")
  with assms have f: "st_point_in_time_filter r1 pit s1 = (a, st2)" by simp
  show "st_query st self_df security SPECIFIC pit = st_specific_branch a security st2"
    by (simp only: st_query.simps Let_def c f prod.case)
  show "st_query st self_df security GENERIC pit = st_generic_branch a security st2"
    by (simp only: st_query.simps Let_def c f prod.case)
  show "st_query st self_df security MONTHLY_GENERIC pit
           = st_monthly_generic_branch a (reference_date pit) security st2"
    by (simp only: st_query.simps Let_def c f prod.case)
  show "st_query st self_df security SPREAD pit = st_query_spread st2 self_df security pit"
    by (simp only: st_query.simps Let_def c f prod.case)
qed

lemma st_query_not_spread:
  assumes "self_df < length st" "st ! self_df = object_of (Frame df None)" "ty \<noteq> SPREAD"
  shows "grows st (st_query st self_df security ty pit) (object_of (query df security ty pit))"
proof -
  from assms(1,2) obtain a st2 where
    pre: "(case copy self_df st of (result_df, st1) \<Rightarrow>
             st_point_in_time_filter result_df pit st1) = (a, st2)"
    and ext: "extends st st2" and a: "a < length st2"
    and o: "st2 ! a = object_of (Frame (point_in_time_filter df pit) None)"
    by (rule st_prelude)
  note q = st_query_prelude [OF pre]
  show ?thesis
  proof (cases ty)
    case SPECIFIC
    show ?thesis
      unfolding SPECIFIC q(1) query.simps
      by (rule extends_grows [OF ext st_specific_branch_grows [OF a o]])
  next
    case GENERIC
    show ?thesis
      unfolding GENERIC q(2) query.simps
      by (rule extends_grows [OF ext st_generic_branch_grows [OF a o]])
  next
    case MONTHLY_GENERIC
    show ?thesis
      unfolding MONTHLY_GENERIC q(3) query.simps
      by (rule extends_grows [OF ext st_monthly_generic_branch_grows [OF a o]])
  next
    case SPREAD
    with assms(3) show ?thesis by simp
  qed
qed

subsection \<open>Queries on the store\<close>

lemma obj_empty_object_of: "obj_empty (object_of f) = empty f"
  by (cases f rule: object_of.cases) (simp_all add: obj_empty_def)

lemma rows_of_object_of:
  "rows_of (object_of f) = (case f of Frame rows md \<Rightarrow> rows | _ \<Rightarrow> [])"
  by (cases f rule: object_of.cases) simp_all

lemma st_query_spread_valid:
  assumes "re_match_spread code = Some (m1, m2, ds)"
    and "map_of month_map m1 = Some f1" "map_of month_map m2 = Some f2"
    and "st_query st self_df (''TFM'' @ m1 @ str_nat (int_of_digits ds)) MONTHLY_GENERIC pit
           = (c1, st1)"
  shows "st_query_spread st self_df code pit =
          (if obj_empty (st1 ! c1) then new_object (object_of EmptyDataFrame) st1
           else case rows_of (st1 ! c1) of
                  [] \<Rightarrow> new_object (object_of EmptyDataFrame) st1
                | r1 # x \<Rightarrow> st_spread_result self_df code m1 m2 f1 f2 r1 st1)"
  by (simp only: st_query_spread.simps assms option.case prod.case Let_def)

lemma st_query_spread_grows:
  assumes "self_df < length st" "st ! self_df = object_of (Frame df None)"
  shows "grows st (st_query_spread st self_df code pit) (object_of (query_spread df code pit))"
proof (cases "re_match_spread code")
  case None
  then show ?thesis
    by (simp add: st_query_spread.simps query_spread.simps grows_new_object)
next
  case (Some t)
  obtain m1 m2 ds where t: "t = (m1, m2, ds)" by (cases t)
  note p = Some [unfolded t]
  show ?thesis
  proof (cases "map_of month_map m1")
    case None
    with p show ?thesis
      by (simp only: st_query_spread.simps query_spread.simps option.case prod.case Let_def
          grows_new_object)
  next
    case f1: (Some f1)
    show ?thesis
    proof (cases "map_of month_map m2")
      case None
      with p f1 show ?thesis
        by (simp only: st_query_spread.simps query_spread.simps option.case prod.case Let_def
            grows_new_object)
    next
      case f2: (Some f2)
      let ?code1 = "''TFM'' @ m1 @ str_nat (int_of_digits ds)"
      let ?q = "query df ?code1 MONTHLY_GENERIC pit"
      have g: "grows st (st_query st self_df ?code1 MONTHLY_GENERIC pit) (object_of ?q)"
        using assms by (rule st_query_not_spread) simp
      obtain c1 st1 where r: "st_query st self_df ?code1 MONTHLY_GENERIC pit = (c1, st1)"
        by (cases "st_query st self_df ?code1 MONTHLY_GENERIC pit")
      from g have ext: "extends st st1" unfolding r by (drule_tac grows_extends) simp
      from g obtain a' st' where "(c1, st1) = (a', st')" "st' ! a' = object_of ?q"
        unfolding r by (rule growsE)
      then have c1: "st1 ! c1 = object_of ?q" by simp
      have self: "self_df < length st1" "st1 ! self_df = object_of (Frame df None)"
        using extends_length [OF ext] extends_nth [OF ext assms(1)] assms by simp_all
      have pure: "query_spread df code pit =
          (case ?q of Frame (r1 # rest) md \<Rightarrow> spread_result df code m1 m2 f1 f2 r1
           | _ \<Rightarrow> EmptyDataFrame)"
        using p f1 f2 by (rule query_spread_resolved)
      note st = st_query_spread_valid [OF p f1 f2 r]
      have e: "grows st (new_object (object_of EmptyDataFrame) st1) (object_of EmptyDataFrame)"
        by (rule extends_grows [OF ext grows_new_object])
      have s: "grows st (st_spread_result self_df code m1 m2 f1 f2 r1 st1)
                 (object_of (spread_result df code m1 m2 f1 f2 r1))" for r1
        by (rule extends_grows [OF ext st_spread_result_grows [OF self]])
      show ?thesis
      proof (cases ?q)
        case EmptyDataFrame
        with e show ?thesis
          unfolding st pure c1 obj_empty_object_of by simp
      next
        case (Frame rows md)
        show ?thesis
        proof (cases rows)
          case Nil
          with Frame e show ?thesis
            unfolding st pure c1 obj_empty_object_of by simp
        next
          case (Cons r1 rest)
          with Frame s [of r1] show ?thesis
            unfolding st pure c1 obj_empty_object_of rows_of_object_of by simp
        qed
      next
        case (SpreadFrame sr md)
        with e show ?thesis
          unfolding st pure c1 obj_empty_object_of rows_of_object_of by simp
      qed
    qed
  qed
qed

lemma st_query_grows:
  assumes "self_df < length st" "st ! self_df = object_of (Frame df None)"
  shows "grows st (st_query st self_df security ty pit) (object_of (query df security ty pit))"
proof (cases "ty = SPREAD")
  case False
  with assms show ?thesis by (rule st_query_not_spread)
next
  case True
  from assms obtain a st2 where
    pre: "(case copy self_df st of (result_df, st1) \<Rightarrow>
             st_point_in_time_filter result_df pit st1) = (a, st2)"
    and ext: "extends st st2"
    by (rule st_prelude)
  have self: "self_df < length st2" "st2 ! self_df = object_of (Frame df None)"
    using extends_length [OF ext] extends_nth [OF ext assms(1)] assms by simp_all
  show ?thesis
    unfolding True st_query_prelude(4) [OF pre] query.simps
    by (rule extends_grows [OF ext st_query_spread_grows [OF self]])
qed

text \<open>
  \<^bold>\<open>C10.\<close>  A query of any kind, on any input and point in time, leaves the calendar
  table unchanged: the object \<^verbatim>\<open>self.df\<close> refers to holds the same table after the
  call as before it, and so does every other object that existed before the call.  The
  returned DataFrame is a new object, and it holds the frame that \<open>query\<close> computes.
\<close>

theorem query_leaves_table_unchanged:
  assumes "self_df < length st"
    and "st ! self_df = object_of (Frame df None)"
    and "st_query st self_df security ty pit = (res, st')"
  shows "st' ! self_df = object_of (Frame df None)
       \<and> (\<forall>b < length st. st' ! b = st ! b)
       \<and> length st \<le> res \<and> res < length st'
       \<and> st' ! res = object_of (query df security ty pit)"
proof -
  from st_query_grows [OF assms(1,2), of security ty pit]
  obtain a st2 where "st_query st self_df security ty pit = (a, st2)"
    "\<forall>b < length st. st2 ! b = st ! b" "length st \<le> a" "a < length st2"
    "st2 ! a = object_of (query df security ty pit)"
    by (rule growsE)
  with assms show ?thesis by simp
qed

text \<open>
  On the example calendar the monthly query adds eight objects after the table and
  returns the last one.
\<close>

theorem query_leaves_table_unchanged_witness:
  "(0::nat) < length calendar_store
   \<and> calendar_store ! 0 = object_of (Frame calendar None)
   \<and> fst (st_query calendar_store 0 ''TFMAPR1'' MONTHLY_GENERIC (Single (2025, 5, 1, 0))) = 8
   \<and> length (snd (st_query calendar_store 0 ''TFMAPR1'' MONTHLY_GENERIC (Single (2025, 5, 1, 0))))
       = 9
   \<and> snd (st_query calendar_store 0 ''TFMAPR1'' MONTHLY_GENERIC (Single (2025, 5, 1, 0))) ! 0
       = object_of (Frame calendar None)
   \<and> snd (st_query calendar_store 0 ''TFMAPR1'' MONTHLY_GENERIC (Single (2025, 5, 1, 0))) ! 8
       = object_of
           (Frame [april_2026]
              (Some (FullMetadata []
                 (Some \<lparr> next_year = 2026, next_expiry_date = (2026, 4, 15) \<rparr>) april_info)))"
proof -
  let ?r = "st_query calendar_store 0 ''TFMAPR1'' MONTHLY_GENERIC (Single (2025, 5, 1, 0))"
  have h1: "(0::nat) < length calendar_store" by (simp add: calendar_store_def)
  have h2: "calendar_store ! 0 = object_of (Frame calendar None)"
    by (simp add: calendar_store_def)
  have f: "fst ?r = 8" by code_simp
  have l: "length (snd ?r) = 9" by code_simp
  have h3: "?r = (8, snd ?r)" using f by (metis prod.collapse)
  have q: "query calendar ''TFMAPR1'' MONTHLY_GENERIC (Single (2025, 5, 1, 0))
     = Frame [april_2026]
         (Some (FullMetadata []
            (Some \<lparr> next_year = 2026, next_expiry_date = (2026, 4, 15) \<rparr>) april_info))"
    by code_simp
  from query_leaves_table_unchanged [OF h1 h2 h3]
  have "snd ?r ! 0 = object_of (Frame calendar None)"
    and "snd ?r ! 8 = object_of (query calendar ''TFMAPR1'' MONTHLY_GENERIC (Single (2025, 5, 1, 0)))"
    by simp_all
  with h1 h2 f l q show ?thesis by simp
qed

end
